theory Spec2Isabelle
  imports Complex_Main
begin

section \<open>Numbers and failing arithmetic\<close>

text \<open>
  The notebook computes with floating-point numbers. They are modelled as real numbers:
  overflow and underflow are outside the model, and so is rounding, except in the update
  of the loop variable of the sweep, where rounding decides how often the loop runs and
  is a parameter of the model. An operation that yields no real number is a branch of its
  own. Division by zero raises \<open>ZeroDivisionError\<close> on Python floats and
  gives \<open>inf\<close> or \<open>nan\<close> on numpy scalars; a negative base under a fractional
  exponent gives a complex number on Python floats and \<open>nan\<close> on numpy scalars. In both
  cases the model returns the error on the left of a sum. The other two errors are those
  of an index outside an array and of a key missing from a dictionary.
\<close>

datatype error = ZeroDivisionError | NonRealPower | IndexError | KeyError

type_synonym 'a result = "error + 'a"

definition and_then :: "'a result \<Rightarrow> ('a \<Rightarrow> 'b result) \<Rightarrow> 'b result" where
  "and_then r k = (case r of Inl e \<Rightarrow> Inl e | Inr v \<Rightarrow> k v)"

definition fdiv :: "real \<Rightarrow> real \<Rightarrow> real result" where
  "fdiv a b = (if b = 0 then Inl ZeroDivisionError else Inr (a / b))"

text \<open>The operator \<open>**\<close> with a float exponent.\<close>

definition fpow :: "real \<Rightarrow> real \<Rightarrow> real result" where
  "fpow a b =
     (if b = 0 then Inr 1
      else if 0 < a then Inr (a powr b)
      else if a = 0 then (if 0 < b then Inr 0 else Inl ZeroDivisionError)
      else if b = of_int \<lfloor>b\<rfloor> then Inr ((if even \<lfloor>b\<rfloor> then 1 else - 1) * ((- a) powr b))
      else Inl NonRealPower)"

text \<open>
  Rounding to the nearest double, ties to the even mantissa: a number in the binade
  \<open>[2^e, 2^(e+1))\<close> is rounded to the nearest multiple of \<open>2^(e-52)\<close>. The range
  of the exponent is not bounded: overflow and underflow are outside the model.
\<close>

definition rne :: "real \<Rightarrow> int" where
  "rne y =
     (let f = \<lfloor>y\<rfloor>; d = y - of_int f
      in if d < 1 / 2 then f else if 1 / 2 < d then f + 1 else if even f then f else f + 1)"

definition double_round :: "real \<Rightarrow> real" where
  "double_round x =
     (if x = 0 then 0
      else (let ulp = 2 powi (\<lfloor>log 2 \<bar>x\<bar>\<rfloor> - 52)
            in ulp * of_int (rne (x / ulp))))"

text \<open>
  What the proofs about a loop that does not leave need of a rounding \<open>rnd\<close>: it is
  monotone, it rounds a rounded number to itself, the numbers it leaves unchanged are
  closed under negation and under doubling, and zero is one of them. Rounding to the
  nearest double is of this kind as long as nothing overflows.
\<close>

definition rounding :: "(real \<Rightarrow> real) \<Rightarrow> bool" where
  "rounding rnd \<longleftrightarrow>
     (\<forall>x y. x \<le> y \<longrightarrow> rnd x \<le> rnd y)
     \<and> (\<forall>x. rnd (rnd x) = rnd x)
     \<and> (\<forall>x. rnd x = x \<longrightarrow> rnd (- x) = - x)
     \<and> (\<forall>x. rnd x = x \<longrightarrow> rnd (2 * x) = 2 * x)
     \<and> rnd 0 = 0"

section \<open>Module-level constants\<close>

text \<open>
  The functions of the notebook read module-level names: the nuclear density and pressure
  in geometric units, the crust index \<open>gamma0\<close>, the three segment boundaries, and the
  factor \<open>m_units.si / const.M_sun\<close> that turns a geometric mass into solar masses. They
  are passed explicitly as one record.
\<close>

record globals =
  rho_nuclear_v :: real
  p_nuclear_v :: real
  gamma0 :: real
  rho0_v :: real
  rho1_v :: real
  rho2_v :: real
  m_in_M_sun :: real

text \<open>
  The values the notebook assigns. The unit conversions come from the astropy library; a
  conversion multiplies by a positive factor, here \<open>c_rho\<close> for one \<open>kg / m**3\<close> in
  \<open>rho_units\<close>, \<open>c_p\<close> for one \<open>N / m**2\<close> in \<open>p_units\<close> and \<open>c_m\<close> for one
  geometric mass unit in solar masses. One \<open>g / cm**3\<close> is 1000 \<open>kg / m**3\<close>.
\<close>

definition notebook_globals :: "real \<Rightarrow> real \<Rightarrow> real \<Rightarrow> globals" where
  "notebook_globals c_rho c_p c_m =
     \<lparr> rho_nuclear_v = 23 * 10 ^ 16 * c_rho,
       p_nuclear_v = 3 * 10 ^ 32 * c_p,
       gamma0 = 133 / 100,
       rho0_v = 23 * 10 ^ 16 * c_rho,
       rho1_v = 10 powr (147 / 10) * 1000 * c_rho,
       rho2_v = 10 ^ 15 * 1000 * c_rho,
       m_in_M_sun = c_m \<rparr>"

section \<open>The TOV equations\<close>

definition dp_dr :: "real \<Rightarrow> real \<Rightarrow> real \<Rightarrow> real \<Rightarrow> real result" where
  "dp_dr r p m rho =
     (if r \<le> 0 then Inr 0
      else and_then (fdiv (- (rho + p) * (m + 4 * pi * r ^ 3 * p)) r)
             (\<lambda>q. fdiv q (r - 2 * m)))"

definition dm_dr :: "real \<Rightarrow> real \<Rightarrow> real \<Rightarrow> real \<Rightarrow> real" where
  "dm_dr r p m rho = 4 * pi * r ^ 2 * rho"

definition tov_equations ::
  "real \<Rightarrow> real \<times> real \<Rightarrow> (real \<Rightarrow> real result) \<Rightarrow> (real \<times> real) result" where
  "tov_equations r p_and_m eos_rho =
     and_then (eos_rho (fst p_and_m))
       (\<lambda>rho. and_then (dp_dr r (fst p_and_m) (snd p_and_m) rho)
          (\<lambda>dp. Inr (dp, dm_dr r (fst p_and_m) (snd p_and_m) rho)))"

section \<open>Integration of the TOV equations\<close>

text \<open>
  The notebook drives \<open>scipy.integrate.ode\<close> with the \<open>dopri5\<close> method. The object
  holds the current radius \<open>t\<close>, the current state \<open>y\<close> and a success flag, which is
  set when the integrator is chosen. The method \<open>integrate\<close> belongs to the library: it
  is a parameter of the model, a function of the right-hand side, of the object and of the
  target radius that gives the object back, with \<open>t\<close>, \<open>y\<close> and the flag as the
  library left them, or the error that the right-hand side raised.
\<close>

record ode =
  ode_t :: real
  ode_y :: "real \<times> real"
  ode_success :: bool

type_synonym ode_integrate =
  "(real \<Rightarrow> real \<times> real \<Rightarrow> (real \<times> real) result) \<Rightarrow> ode \<Rightarrow> real \<Rightarrow> ode result"

text \<open>
  The loop of \<open>solve_tov_equations\<close>. It may run for ever, so it is a partial function:
  \<open>None\<close> is a run that does not return.
\<close>

partial_function (option) tov_loop ::
  "ode_integrate \<Rightarrow> (real \<Rightarrow> real result) \<Rightarrow> real \<Rightarrow> ode \<Rightarrow> real list \<Rightarrow> (real \<times> real) list
     \<Rightarrow> (real list \<times> (real \<times> real) list) result option" where
  "tov_loop integrate eos_rho step integrator r_path p_and_m_path =
     (if ode_success integrator then
        (case integrate (\<lambda>r p_and_m. tov_equations r p_and_m eos_rho) integrator
                (ode_t integrator + step) of
           Inl e \<Rightarrow> Some (Inl e)
         | Inr integrator' \<Rightarrow>
             (let p_and_m = ode_y integrator';
                  r_path' = r_path @ [ode_t integrator'];
                  p_and_m_path' = p_and_m_path @ [p_and_m]
              in if fst p_and_m \<le> 0 then Some (Inr (r_path', p_and_m_path'))
                 else tov_loop integrate eos_rho step integrator' r_path' p_and_m_path'))
      else Some (Inr (r_path, p_and_m_path)))"

text \<open>
  The function returns the three columns \<open>r\<close>, \<open>p\<close> and \<open>m\<close> and nothing else.
\<close>

definition solve_tov_equations ::
  "ode_integrate \<Rightarrow> real \<Rightarrow> (real \<Rightarrow> real result) \<Rightarrow> real
     \<Rightarrow> (real list \<times> real list \<times> real list) result option" where
  "solve_tov_equations integrate p_central eos_rho step =
     (let r_initial = 0;
          p_and_m_initial = (p_central, 0);
          integrator = \<lparr> ode_t = r_initial, ode_y = p_and_m_initial, ode_success = True \<rparr>
      in map_option
           (\<lambda>res. and_then res (\<lambda>(r_path, p_and_m_path).
              Inr (r_path, map fst p_and_m_path, map snd p_and_m_path)))
           (tov_loop integrate eos_rho step integrator [r_initial] [p_and_m_initial]))"

section \<open>The simple polytropic equation of state\<close>

definition eos_p_simple :: "globals \<Rightarrow> real \<Rightarrow> real result" where
  "eos_p_simple G rho_rest =
     and_then (fdiv rho_rest (rho_nuclear_v G)) (\<lambda>q. Inr (q ^ 3 * p_nuclear_v G))"

definition eos_rho_rest_simple :: "globals \<Rightarrow> real \<Rightarrow> real result" where
  "eos_rho_rest_simple G p =
     and_then (fdiv p (p_nuclear_v G))
       (\<lambda>q. and_then (fpow q (1 / 3)) (\<lambda>w. Inr (w * rho_nuclear_v G)))"

definition eos_rho_simple :: "globals \<Rightarrow> real \<Rightarrow> real result" where
  "eos_rho_simple G p = and_then (eos_rho_rest_simple G p) (\<lambda>rho_rest. Inr (rho_rest + p / 2))"

section \<open>The piecewise polytropic equation of state\<close>

text \<open>
  \<open>numpy.piecewise\<close> on a scalar: the result starts at 0, and each condition that holds
  overwrites it, in the order of the list, with the value of the function at the same
  position. A function is evaluated only where its condition holds.
\<close>

definition piecewise :: "real \<Rightarrow> bool list \<Rightarrow> (real \<Rightarrow> real result) list \<Rightarrow> real result" where
  "piecewise x condlist funclist =
     fold (\<lambda>cf acc. and_then acc (\<lambda>y. if fst cf then snd cf x else Inr y))
       (zip condlist funclist) (Inr 0)"

text \<open>
  The four conditions of every piecewise function of the notebook, for thresholds
  \<open>a\<close>, \<open>b\<close>, \<open>c\<close>.
\<close>

definition segment_conds :: "real \<Rightarrow> real \<Rightarrow> real \<Rightarrow> real \<Rightarrow> bool list" where
  "segment_conds x a b c = [x < a, x \<ge> a \<and> x < b, x \<ge> b \<and> x < c, x \<ge> c]"

text \<open>
  The two expressions the notebook writes out in each segment:
  \<open>a * (x / x0)**g\<close> and \<open>(x / x0)**(1 / g) * a\<close>.
\<close>

definition power_law :: "real \<Rightarrow> real \<Rightarrow> real \<Rightarrow> real \<Rightarrow> real result" where
  "power_law a x x0 g = and_then (fdiv x x0) (\<lambda>q. and_then (fpow q g) (\<lambda>w. Inr (a * w)))"

definition inverse_power_law :: "real \<Rightarrow> real \<Rightarrow> real \<Rightarrow> real \<Rightarrow> real result" where
  "inverse_power_law x x0 g a =
     and_then (fdiv x x0)
       (\<lambda>q. and_then (fdiv 1 g) (\<lambda>e. and_then (fpow q e) (\<lambda>w. Inr (w * a))))"

text \<open>The pressures \<open>p0\<close> and \<open>p2\<close> at the outer boundaries, computed from \<open>p1\<close>.\<close>

definition boundary_p0 :: "globals \<Rightarrow> real \<Rightarrow> real \<Rightarrow> real result" where
  "boundary_p0 G p1 gamma1 = power_law p1 (rho0_v G) (rho1_v G) gamma1"

definition boundary_p2 :: "globals \<Rightarrow> real \<Rightarrow> real \<Rightarrow> real result" where
  "boundary_p2 G p1 gamma2 = power_law p1 (rho2_v G) (rho1_v G) gamma2"

definition p_segments ::
  "globals \<Rightarrow> real \<Rightarrow> real \<Rightarrow> real \<Rightarrow> real \<Rightarrow> real \<Rightarrow> real \<Rightarrow> (real \<Rightarrow> real result) list" where
  "p_segments G p0 p1 p2 gamma1 gamma2 gamma3 =
     [\<lambda>rho. power_law p0 rho (rho0_v G) (gamma0 G),
      \<lambda>rho. power_law p1 rho (rho1_v G) gamma1,
      \<lambda>rho. power_law p1 rho (rho1_v G) gamma2,
      \<lambda>rho. power_law p2 rho (rho2_v G) gamma3]"

definition eos_p_polytropic ::
  "globals \<Rightarrow> real \<Rightarrow> real \<Rightarrow> real \<Rightarrow> real \<Rightarrow> real \<Rightarrow> real result" where
  "eos_p_polytropic G rho p1 gamma1 gamma2 gamma3 =
     and_then (boundary_p0 G p1 gamma1) (\<lambda>p0.
     and_then (boundary_p2 G p1 gamma2) (\<lambda>p2.
       piecewise rho (segment_conds rho (rho0_v G) (rho1_v G) (rho2_v G))
         (p_segments G p0 p1 p2 gamma1 gamma2 gamma3)))"

definition rho_rest_segments ::
  "globals \<Rightarrow> real \<Rightarrow> real \<Rightarrow> real \<Rightarrow> real \<Rightarrow> real \<Rightarrow> real \<Rightarrow> (real \<Rightarrow> real result) list" where
  "rho_rest_segments G p0 p1 p2 gamma1 gamma2 gamma3 =
     [\<lambda>p. inverse_power_law p p0 (gamma0 G) (rho0_v G),
      \<lambda>p. inverse_power_law p p1 gamma1 (rho1_v G),
      \<lambda>p. inverse_power_law p p1 gamma2 (rho1_v G),
      \<lambda>p. inverse_power_law p p2 gamma3 (rho2_v G)]"

definition eos_rho_rest_polytropic ::
  "globals \<Rightarrow> real \<Rightarrow> real \<Rightarrow> real \<Rightarrow> real \<Rightarrow> real \<Rightarrow> real result" where
  "eos_rho_rest_polytropic G p p1 gamma1 gamma2 gamma3 =
     and_then (boundary_p0 G p1 gamma1) (\<lambda>p0.
     and_then (boundary_p2 G p1 gamma2) (\<lambda>p2.
       piecewise p (segment_conds p p0 p1 p2)
         (rho_rest_segments G p0 p1 p2 gamma1 gamma2 gamma3)))"

text \<open>
  The running constant of the next segment, \<open>C + p / rho * (1 / (ga - 1) - 1 / (gb - 1))\<close>,
  and the energy density of a segment, \<open>C * rho_rest(p) + p / (g - 1)\<close>.
\<close>

definition next_constant :: "real \<Rightarrow> real \<Rightarrow> real \<Rightarrow> real \<Rightarrow> real \<Rightarrow> real result" where
  "next_constant C p rho ga gb =
     and_then (fdiv p rho) (\<lambda>a.
     and_then (fdiv 1 (ga - 1)) (\<lambda>b.
     and_then (fdiv 1 (gb - 1)) (\<lambda>c. Inr (C + a * (b - c)))))"

definition energy_law :: "real \<Rightarrow> (real \<Rightarrow> real result) \<Rightarrow> real \<Rightarrow> real \<Rightarrow> real result" where
  "energy_law C rho_rest g p =
     and_then (rho_rest p) (\<lambda>rr. and_then (fdiv p (g - 1)) (\<lambda>t. Inr (C * rr + t)))"

definition rho_segments ::
  "globals \<Rightarrow> (real \<Rightarrow> real result) \<Rightarrow> real \<Rightarrow> real \<Rightarrow> real \<Rightarrow> real \<Rightarrow> real \<Rightarrow> real \<Rightarrow> real
     \<Rightarrow> (real \<Rightarrow> real result) list" where
  "rho_segments G rho_rest C0 C1 C2 C3 gamma1 gamma2 gamma3 =
     [energy_law C0 rho_rest (gamma0 G),
      energy_law C1 rho_rest gamma1,
      energy_law C2 rho_rest gamma2,
      energy_law C3 rho_rest gamma3]"

text \<open>The running constants \<open>C0\<close> to \<open>C3\<close>, as the notebook accumulates them.\<close>

definition running_constants ::
  "globals \<Rightarrow> real \<Rightarrow> real \<Rightarrow> real \<Rightarrow> real \<Rightarrow> real \<Rightarrow> real \<Rightarrow> (real \<times> real \<times> real \<times> real) result" where
  "running_constants G p0 p1 p2 gamma1 gamma2 gamma3 =
     (let C0 = 1 in
      and_then (next_constant C0 p0 (rho0_v G) (gamma0 G) gamma1) (\<lambda>C1.
      and_then (next_constant C1 p1 (rho1_v G) gamma1 gamma2) (\<lambda>C2.
      and_then (next_constant C2 p2 (rho2_v G) gamma2 gamma3) (\<lambda>C3.
        Inr (C0, C1, C2, C3)))))"

definition eos_rho_polytropic ::
  "globals \<Rightarrow> real \<Rightarrow> real \<Rightarrow> real \<Rightarrow> real \<Rightarrow> real \<Rightarrow> real result" where
  "eos_rho_polytropic G p p1 gamma1 gamma2 gamma3 =
     and_then (boundary_p0 G p1 gamma1) (\<lambda>p0.
     and_then (boundary_p2 G p1 gamma2) (\<lambda>p2.
     and_then (running_constants G p0 p1 p2 gamma1 gamma2 gamma3) (\<lambda>(C0, C1, C2, C3).
       piecewise p (segment_conds p p0 p1 p2)
         (rho_segments G (\<lambda>p. eos_rho_rest_polytropic G p p1 gamma1 gamma2 gamma3)
            C0 C1 C2 C3 gamma1 gamma2 gamma3))))"

text \<open>
  The table \<open>polytropes\<close> of fitted parameters, with \<open>p1\<close> in \<open>dyne / cm**2\<close>, and the
  function that builds the pressure and the energy density of a named equation of state.
  One \<open>dyne / cm**2\<close> is a tenth of one \<open>N / m**2\<close>, so the conversion of \<open>p1\<close> to
  \<open>p_units\<close> multiplies by \<open>c_p / 10\<close>.
\<close>

definition polytropes :: "string \<Rightarrow> (real \<times> real \<times> real \<times> real) option" where
  "polytropes name =
     (if name = ''SLy''
        then Some (10 powr (34384 / 1000), 3005 / 1000, 2988 / 1000, 2851 / 1000)
      else if name = ''GS1''
        then Some (10 powr (34504 / 1000), 2350 / 1000, 1267 / 1000, 2421 / 1000)
      else None)"

definition make_polytrope_eos_p_and_rho ::
  "globals \<Rightarrow> real \<Rightarrow> string \<Rightarrow> ((real \<Rightarrow> real result) \<times> (real \<Rightarrow> real result)) result" where
  "make_polytrope_eos_p_and_rho G c_p name =
     (case polytropes name of
        None \<Rightarrow> Inl KeyError
      | Some (p1_cgs, gamma1, gamma2, gamma3) \<Rightarrow>
          (let p1 = p1_cgs * (c_p / 10)
           in Inr (\<lambda>rho. eos_p_polytropic G rho p1 gamma1 gamma2 gamma3,
                   \<lambda>p. eos_rho_polytropic G p p1 gamma1 gamma2 gamma3)))"

section \<open>Sampling the mass-radius relation\<close>

text \<open>
  The sweep is called with a start of \<open>2 * rho_nuclear_v\<close>, a step of 0.05, a stop of
  \<open>20 * rho_nuclear_v\<close> and \<open>stop_at_maximum_mass=False\<close> where the caller gives
  nothing else; the model takes all four as arguments.
  The data frame \<open>MR_data\<close> is a list of rows \<open>(rho_central, M, R)\<close> in the order of
  insertion. The assignment \<open>MR_data.loc[rho_central] = [M, R]\<close> overwrites the row that
  has this key, where it stands, and appends a new row when none has.
\<close>

type_synonym mr_data = "(real \<times> real \<times> real) list"

definition loc_set :: "mr_data \<Rightarrow> real \<Rightarrow> real \<times> real \<Rightarrow> mr_data" where
  "loc_set MR_data key row =
     (if key \<in> fst ` set MR_data
      then map (\<lambda>r. if fst r = key then (key, row) else r) MR_data
      else MR_data @ [(key, row)])"

text \<open>The index \<open>[-1]\<close> of an array.\<close>

definition last_item :: "'a list \<Rightarrow> 'a result" where
  "last_item xs = (if xs = [] then Inl IndexError else Inr (last xs))"

text \<open>
  The update \<open>rho_central += rho_central * rho_central_log_step\<close> decides how often the
  loop runs, so its two operations are rounded: \<open>rnd\<close> is the rounding of the float
  format, \<open>double_round\<close> for the doubles of the notebook.
\<close>

definition update_density :: "(real \<Rightarrow> real) \<Rightarrow> real \<Rightarrow> real \<Rightarrow> real" where
  "update_density rnd rho_central_log_step rho_central =
     rnd (rho_central + rnd (rho_central * rho_central_log_step))"

partial_function (option) sample_loop ::
  "(real \<Rightarrow> real) \<Rightarrow> ode_integrate \<Rightarrow> globals \<Rightarrow> (real \<Rightarrow> real result) \<Rightarrow> (real \<Rightarrow> real result)
     \<Rightarrow> real \<Rightarrow> real \<Rightarrow> bool \<Rightarrow> real \<Rightarrow> mr_data \<Rightarrow> mr_data result option" where
  "sample_loop rnd integrate G eos_p eos_rho rho_central_log_step rho_central_stop
       stop_at_maximum_mass rho_central MR_data =
     (if rho_central < rho_central_stop then
        (case eos_p rho_central of
           Inl e \<Rightarrow> Some (Inl e)
         | Inr p_central \<Rightarrow>
             (case solve_tov_equations integrate p_central eos_rho (1 / 10) of
                None \<Rightarrow> None
              | Some (Inl e) \<Rightarrow> Some (Inl e)
              | Some (Inr (r, p, m)) \<Rightarrow>
                  (case last_item r of
                     Inl e \<Rightarrow> Some (Inl e)
                   | Inr R \<Rightarrow>
                       (case last_item m of
                          Inl e \<Rightarrow> Some (Inl e)
                        | Inr m_last \<Rightarrow>
                            (let M = m_last * m_in_M_sun G
                             in if stop_at_maximum_mass \<and> length MR_data > 0
                                     \<and> M < fst (snd (last MR_data))
                                then Some (Inr MR_data)
                                else sample_loop rnd integrate G eos_p eos_rho
                                       rho_central_log_step rho_central_stop stop_at_maximum_mass
                                       (update_density rnd rho_central_log_step rho_central)
                                       (loc_set MR_data rho_central (M, R)))))))
      else Some (Inr MR_data))"

definition sample_eos_mass_radius ::
  "(real \<Rightarrow> real) \<Rightarrow> ode_integrate \<Rightarrow> globals \<Rightarrow> (real \<Rightarrow> real result) \<Rightarrow> (real \<Rightarrow> real result)
     \<Rightarrow> real \<Rightarrow> real \<Rightarrow> real \<Rightarrow> bool \<Rightarrow> mr_data result option" where
  "sample_eos_mass_radius rnd integrate G eos_p eos_rho rho_central_start rho_central_log_step
       rho_central_stop stop_at_maximum_mass =
     sample_loop rnd integrate G eos_p eos_rho rho_central_log_step rho_central_stop
       stop_at_maximum_mass rho_central_start []"

section \<open>Valid constants and parameters\<close>

definition valid_globals :: "globals \<Rightarrow> bool" where
  "valid_globals G \<longleftrightarrow>
     0 < rho_nuclear_v G \<and> 0 < p_nuclear_v G \<and> 1 < gamma0 G
     \<and> 0 < rho0_v G \<and> rho0_v G < rho1_v G \<and> rho1_v G < rho2_v G"

definition valid_parameters :: "real \<Rightarrow> real \<Rightarrow> real \<Rightarrow> real \<Rightarrow> bool" where
  "valid_parameters p1 gamma1 gamma2 gamma3 \<longleftrightarrow>
     0 < p1 \<and> 1 < gamma1 \<and> 1 < gamma2 \<and> 1 < gamma3"

section \<open>Closed forms used in the statements\<close>

text \<open>
  The values that the notebook computes for the boundary pressures and for the running
  constants, written as plain real expressions, and the statement that two neighbouring
  segment laws and the whole piecewise function have one value at a boundary.
\<close>

definition p0_value :: "globals \<Rightarrow> real \<Rightarrow> real \<Rightarrow> real" where
  "p0_value G p1 gamma1 = p1 * (rho0_v G / rho1_v G) powr gamma1"

definition p2_value :: "globals \<Rightarrow> real \<Rightarrow> real \<Rightarrow> real" where
  "p2_value G p1 gamma2 = p1 * (rho2_v G / rho1_v G) powr gamma2"

definition laws_agree ::
  "(real \<Rightarrow> real result) list \<Rightarrow> nat \<Rightarrow> real \<Rightarrow> (real \<Rightarrow> real result) \<Rightarrow> bool" where
  "laws_agree laws i x f \<longleftrightarrow>
     (\<exists>v. (laws ! i) x = Inr v \<and> (laws ! Suc i) x = Inr v \<and> f x = Inr v)"

definition C1_value :: "globals \<Rightarrow> real \<Rightarrow> real \<Rightarrow> real" where
  "C1_value G p1 gamma1 =
     1 + p0_value G p1 gamma1 / rho0_v G * (1 / (gamma0 G - 1) - 1 / (gamma1 - 1))"

definition C2_value :: "globals \<Rightarrow> real \<Rightarrow> real \<Rightarrow> real \<Rightarrow> real" where
  "C2_value G p1 gamma1 gamma2 =
     C1_value G p1 gamma1 + p1 / rho1_v G * (1 / (gamma1 - 1) - 1 / (gamma2 - 1))"

definition C3_value :: "globals \<Rightarrow> real \<Rightarrow> real \<Rightarrow> real \<Rightarrow> real \<Rightarrow> real" where
  "C3_value G p1 gamma1 gamma2 gamma3 =
     C2_value G p1 gamma1 gamma2
       + p2_value G p1 gamma2 / rho2_v G * (1 / (gamma2 - 1) - 1 / (gamma3 - 1))"

text \<open>
  The integrator object as \<open>solve_tov_equations\<close> sets it up, and the iterations of its
  loop that go on: the integrator was successful, the step returned, and the pressure it
  reported is positive. \<open>continues c c'\<close> holds when the loop, started in the
  configuration \<open>c\<close> (object and the two paths), comes to the head of the loop in \<open>c'\<close>.
\<close>

definition initial_ode :: "real \<Rightarrow> ode" where
  "initial_ode p_central = \<lparr> ode_t = 0, ode_y = (p_central, 0), ode_success = True \<rparr>"

inductive continues ::
  "ode_integrate \<Rightarrow> (real \<Rightarrow> real result) \<Rightarrow> real
     \<Rightarrow> ode \<times> real list \<times> (real \<times> real) list \<Rightarrow> ode \<times> real list \<times> (real \<times> real) list \<Rightarrow> bool"
  for integrate eos_rho step
  where
    continues_start: "continues integrate eos_rho step c c"
  | continues_step:
      "continues integrate eos_rho step c (integrator, r_path, p_and_m_path) \<Longrightarrow>
       ode_success integrator \<Longrightarrow>
       integrate (\<lambda>r p_and_m. tov_equations r p_and_m eos_rho) integrator
         (ode_t integrator + step) = Inr integrator' \<Longrightarrow>
       0 < fst (ode_y integrator') \<Longrightarrow>
       continues integrate eos_rho step c
         (integrator', r_path @ [ode_t integrator'], p_and_m_path @ [ode_y integrator'])"

code_pred continues .

text \<open>
  A postcondition of the loop: what it returns extends the paths it was started with by
  as many radii as states, and by at least one when the integrator was successful.
\<close>

definition extends_paths ::
  "ode_integrate \<Rightarrow> (real \<Rightarrow> real result) \<Rightarrow> real \<Rightarrow> ode \<Rightarrow> real list \<Rightarrow> (real \<times> real) list
     \<Rightarrow> (real list \<times> (real \<times> real) list) result \<Rightarrow> bool" where
  "extends_paths integrate eos_rho step integrator r_path p_and_m_path res \<longleftrightarrow>
     (\<forall>rs pms. res = Inr (rs, pms) \<longrightarrow>
        (\<exists>xs ys. rs = r_path @ xs \<and> pms = p_and_m_path @ ys \<and> length xs = length ys
                  \<and> (ode_success integrator \<longrightarrow> xs \<noteq> [])))"

text \<open>
  The row that one iteration of the sweep computes for a central density, when it computes
  one; a data frame whose rows are all of this kind; a data frame whose last row has a
  mass not below that of the row before it; and two postconditions of the sweep.
\<close>

definition star_of ::
  "ode_integrate \<Rightarrow> globals \<Rightarrow> (real \<Rightarrow> real result) \<Rightarrow> (real \<Rightarrow> real result) \<Rightarrow> real
     \<Rightarrow> (real \<times> real) option" where
  "star_of integrate G eos_p eos_rho rho_central =
     (case eos_p rho_central of
        Inl e \<Rightarrow> None
      | Inr p_central \<Rightarrow>
          (case solve_tov_equations integrate p_central eos_rho (1 / 10) of
             Some (Inr (r, p, m)) \<Rightarrow>
               (case (last_item r, last_item m) of
                  (Inr R, Inr m_last) \<Rightarrow> Some (m_last * m_in_M_sun G, R)
                | _ \<Rightarrow> None)
           | _ \<Rightarrow> None))"

definition rows_computed ::
  "ode_integrate \<Rightarrow> globals \<Rightarrow> (real \<Rightarrow> real result) \<Rightarrow> (real \<Rightarrow> real result) \<Rightarrow> mr_data \<Rightarrow> bool" where
  "rows_computed integrate G eos_p eos_rho MR_data \<longleftrightarrow>
     (\<forall>row \<in> set MR_data. star_of integrate G eos_p eos_rho (fst row) = Some (snd row))"

definition last_two_ordered :: "mr_data \<Rightarrow> bool" where
  "last_two_ordered MR_data \<longleftrightarrow>
     (\<forall>rows a b. MR_data = rows @ [a, b] \<longrightarrow> fst (snd a) \<le> fst (snd b))"

definition keeps_order ::
  "(real \<Rightarrow> real) \<Rightarrow> ode_integrate \<Rightarrow> globals \<Rightarrow> (real \<Rightarrow> real result) \<Rightarrow> (real \<Rightarrow> real result)
     \<Rightarrow> real \<Rightarrow> real \<Rightarrow> bool \<Rightarrow> real \<Rightarrow> mr_data \<Rightarrow> mr_data result \<Rightarrow> bool" where
  "keeps_order rnd integrate G eos_p eos_rho log_step stop flag rho MR_data res \<longleftrightarrow>
     (flag \<longrightarrow> rows_computed integrate G eos_p eos_rho MR_data \<longrightarrow> last_two_ordered MR_data
        \<longrightarrow> (\<forall>out. res = Inr out \<longrightarrow> last_two_ordered out))"

text \<open>
  The iterations of the sweep that go on: the loop condition holds, the equation of state
  gives a central pressure, the integration of the star returns a profile, and the break
  of \<open>stop_at_maximum_mass\<close> is not taken. \<open>sweep_reaches c c'\<close> holds when the loop,
  started in the configuration \<open>c\<close> (central density and data frame), comes to the head
  of the loop in \<open>c'\<close>. The stars that a sweep integrates are those of the configurations
  it reaches from its start.
\<close>

inductive sweep_reaches ::
  "(real \<Rightarrow> real) \<Rightarrow> ode_integrate \<Rightarrow> globals \<Rightarrow> (real \<Rightarrow> real result) \<Rightarrow> (real \<Rightarrow> real result)
     \<Rightarrow> real \<Rightarrow> real \<Rightarrow> bool \<Rightarrow> real \<times> mr_data \<Rightarrow> real \<times> mr_data \<Rightarrow> bool"
  for rnd integrate G eos_p eos_rho log_step stop flag
  where
    sweep_start: "sweep_reaches rnd integrate G eos_p eos_rho log_step stop flag c c"
  | sweep_step:
      "sweep_reaches rnd integrate G eos_p eos_rho log_step stop flag c (rho, MR_data) \<Longrightarrow>
       rho < stop \<Longrightarrow>
       eos_p rho = Inr p_central \<Longrightarrow>
       solve_tov_equations integrate p_central eos_rho (1 / 10) = Some (Inr (r, p, m)) \<Longrightarrow>
       last_item r = Inr R \<Longrightarrow>
       last_item m = Inr m_last \<Longrightarrow>
       \<not> (flag \<and> MR_data \<noteq> [] \<and> m_last * m_in_M_sun G < fst (snd (last MR_data))) \<Longrightarrow>
       sweep_reaches rnd integrate G eos_p eos_rho log_step stop flag c
         (update_density rnd log_step rho, loc_set MR_data rho (m_last * m_in_M_sun G, R))"

code_pred (modes: i \<Rightarrow> i \<Rightarrow> i \<Rightarrow> i \<Rightarrow> i \<Rightarrow> i \<Rightarrow> i \<Rightarrow> i \<Rightarrow> i \<Rightarrow> i \<Rightarrow> bool, i \<Rightarrow> i \<Rightarrow> i \<Rightarrow> i \<Rightarrow> i \<Rightarrow> i \<Rightarrow> i \<Rightarrow> i \<Rightarrow> i \<Rightarrow> o \<Rightarrow> bool) sweep_reaches .

text \<open>
  Two more postconditions of the sweep, for a loop condition that holds after every
  number of updates: without \<open>stop_at_maximum_mass\<close> the sweep returns no data frame,
  and it does not return at all when every central density on its way has a star.
\<close>

definition never_leaves ::
  "(real \<Rightarrow> real) \<Rightarrow> ode_integrate \<Rightarrow> globals \<Rightarrow> (real \<Rightarrow> real result) \<Rightarrow> (real \<Rightarrow> real result)
     \<Rightarrow> real \<Rightarrow> real \<Rightarrow> bool \<Rightarrow> real \<Rightarrow> mr_data \<Rightarrow> mr_data result \<Rightarrow> bool" where
  "never_leaves rnd integrate G eos_p eos_rho log_step stop flag rho MR_data res \<longleftrightarrow>
     (\<not> flag \<and> (\<forall>n. (update_density rnd log_step ^^ n) rho < stop)
        \<longrightarrow> (\<forall>out. res \<noteq> Inr out))"

definition never_returns ::
  "(real \<Rightarrow> real) \<Rightarrow> ode_integrate \<Rightarrow> globals \<Rightarrow> (real \<Rightarrow> real result) \<Rightarrow> (real \<Rightarrow> real result)
     \<Rightarrow> real \<Rightarrow> real \<Rightarrow> bool \<Rightarrow> real \<Rightarrow> mr_data \<Rightarrow> mr_data result \<Rightarrow> bool" where
  "never_returns rnd integrate G eos_p eos_rho log_step stop flag rho MR_data res \<longleftrightarrow>
     \<not> (\<not> flag \<and> (\<forall>n. (update_density rnd log_step ^^ n) rho < stop)
        \<and> (\<forall>n. star_of integrate G eos_p eos_rho ((update_density rnd log_step ^^ n) rho) \<noteq> None))"

text \<open>
  The real number that a result holds, and the three piecewise functions as real
  functions of a non-negative argument.
\<close>

definition result_value :: "real result \<Rightarrow> real" where
  "result_value res = (case res of Inl e \<Rightarrow> 0 | Inr v \<Rightarrow> v)"

definition p_closed :: "globals \<Rightarrow> real \<Rightarrow> real \<Rightarrow> real \<Rightarrow> real \<Rightarrow> real \<Rightarrow> real" where
  "p_closed G p1 gamma1 gamma2 gamma3 x =
     (if x < rho0_v G then p0_value G p1 gamma1 * (x / rho0_v G) powr gamma0 G
      else if x < rho1_v G then p1 * (x / rho1_v G) powr gamma1
      else if x < rho2_v G then p1 * (x / rho1_v G) powr gamma2
      else p2_value G p1 gamma2 * (x / rho2_v G) powr gamma3)"

definition rho_rest_closed :: "globals \<Rightarrow> real \<Rightarrow> real \<Rightarrow> real \<Rightarrow> real \<Rightarrow> real \<Rightarrow> real" where
  "rho_rest_closed G p1 gamma1 gamma2 gamma3 p =
     (if p < p0_value G p1 gamma1
        then (p / p0_value G p1 gamma1) powr (1 / gamma0 G) * rho0_v G
      else if p < p1 then (p / p1) powr (1 / gamma1) * rho1_v G
      else if p < p2_value G p1 gamma2 then (p / p1) powr (1 / gamma2) * rho1_v G
      else (p / p2_value G p1 gamma2) powr (1 / gamma3) * rho2_v G)"

definition rho_closed :: "globals \<Rightarrow> real \<Rightarrow> real \<Rightarrow> real \<Rightarrow> real \<Rightarrow> real \<Rightarrow> real" where
  "rho_closed G p1 gamma1 gamma2 gamma3 p =
     (if p < p0_value G p1 gamma1
        then 1 * rho_rest_closed G p1 gamma1 gamma2 gamma3 p + p / (gamma0 G - 1)
      else if p < p1
        then C1_value G p1 gamma1 * rho_rest_closed G p1 gamma1 gamma2 gamma3 p + p / (gamma1 - 1)
      else if p < p2_value G p1 gamma2
        then C2_value G p1 gamma1 gamma2 * rho_rest_closed G p1 gamma1 gamma2 gamma3 p
               + p / (gamma2 - 1)
      else C3_value G p1 gamma1 gamma2 gamma3 * rho_rest_closed G p1 gamma1 gamma2 gamma3 p
             + p / (gamma3 - 1))"

text \<open>Small constants on which the functions can be evaluated by hand.\<close>

definition unit_globals :: globals where
  "unit_globals =
     \<lparr> rho_nuclear_v = 1, p_nuclear_v = 1, gamma0 = 2,
       rho0_v = 1, rho1_v = 2, rho2_v = 4, m_in_M_sun = 1 \<rparr>"

text \<open>
  Two integrators on which a run can be followed by hand. The first reports the surface
  after one step, with a mass that first grows and then falls with the central pressure.
  The second halves the pressure in each step and reports failure in every step that does
  not start at the centre.
\<close>

definition surface_in_one_step :: ode_integrate where
  "surface_in_one_step f integrator t1 =
     Inr \<lparr> ode_t = t1,
           ode_y = (0, fst (ode_y integrator) * (10 - fst (ode_y integrator))),
           ode_success = True \<rparr>"

definition fails_at_second_step :: ode_integrate where
  "fails_at_second_step f integrator t1 =
     Inr \<lparr> ode_t = t1,
           ode_y = (fst (ode_y integrator) / 2, snd (ode_y integrator) + 1),
           ode_success = (ode_t integrator \<le> 0) \<rparr>"

section \<open>Properties of rounding to the nearest double\<close>

text \<open>
  Integers below \<open>2^53\<close> in absolute value are doubles. The rounding is odd, monotone
  and idempotent, it keeps a number in the closure of its binade, the double of a double
  is a double, and the relative error of the rounding is at most \<open>2^-53\<close>.
\<close>

lemma rne_of_int [simp]: "rne (of_int k) = k"
  by (simp add: rne_def)

lemma rne_below_half:
  assumes "of_int f \<le> y" and "y < of_int f + 1 / 2"
  shows "rne y = f"
proof -
  have "\<lfloor>y\<rfloor> = f" using assms by (simp add: floor_eq_iff)
  then show ?thesis using assms by (simp add: rne_def)
qed

lemma rne_near: "\<bar>of_int (rne y) - y\<bar> \<le> 1 / 2"
proof -
  have "of_int \<lfloor>y\<rfloor> \<le> y" and "y < of_int \<lfloor>y\<rfloor> + 1" by linarith+
  then show ?thesis by (auto simp add: rne_def Let_def)
qed

lemma floor_log2:
  assumes "2 powi e \<le> x" and "x < 2 powi (e + 1)"
  shows "\<lfloor>log 2 x\<rfloor> = e"
proof -
  have "(0::real) < 2 powi e" by simp
  then have pos: "0 < x" using assms(1) by linarith
  have "of_int e \<le> log 2 x" using assms(1) pos by (simp add: le_log_iff powr_real_of_int')
  moreover have "log 2 x < of_int (e + 1)"
    using assms(2) pos by (simp add: log_less_iff powr_real_of_int' del: of_int_add)
  ultimately show ?thesis by (simp add: floor_eq_iff)
qed

lemma double_round_at:
  assumes "2 powi e \<le> \<bar>x\<bar>" and "\<bar>x\<bar> < 2 powi (e + 1)"
  shows "double_round x = 2 powi (e - 52) * of_int (rne (x / 2 powi (e - 52)))"
proof -
  have "(0::real) < 2 powi e" by simp
  then have "0 < \<bar>x\<bar>" using assms(1) by linarith
  then have "x \<noteq> 0" by simp
  then show ?thesis using floor_log2 [OF assms] by (simp add: double_round_def Let_def)
qed

lemma double_round_exact:
  assumes "2 powi e \<le> \<bar>x\<bar>" and "\<bar>x\<bar> < 2 powi (e + 1)" and "x = 2 powi (e - 52) * of_int k"
  shows "double_round x = x"
proof -
  have "x / 2 powi (e - 52) = of_int k" using assms(3) by simp
  then show ?thesis using double_round_at [OF assms(1,2)] assms(3) by simp
qed

lemma binade_of:
  assumes "x \<noteq> 0"
  shows "2 powi \<lfloor>log 2 \<bar>x\<bar>\<rfloor> \<le> \<bar>x\<bar>" and "\<bar>x\<bar> < 2 powi (\<lfloor>log 2 \<bar>x\<bar>\<rfloor> + 1)"
proof -
  have pos: "0 < \<bar>x\<bar>" using assms by simp
  have "of_int \<lfloor>log 2 \<bar>x\<bar>\<rfloor> \<le> log 2 \<bar>x\<bar>" by simp
  then have "2 powr of_int \<lfloor>log 2 \<bar>x\<bar>\<rfloor> \<le> \<bar>x\<bar>"
    using pos le_log_iff [of 2 "\<bar>x\<bar>" "of_int \<lfloor>log 2 \<bar>x\<bar>\<rfloor>"] by fastforce
  then show "2 powi \<lfloor>log 2 \<bar>x\<bar>\<rfloor> \<le> \<bar>x\<bar>"
    by (simp add: powr_real_of_int')
  have "log 2 \<bar>x\<bar> < of_int (\<lfloor>log 2 \<bar>x\<bar>\<rfloor> + 1)" by linarith
  then have "\<bar>x\<bar> < 2 powr of_int (\<lfloor>log 2 \<bar>x\<bar>\<rfloor> + 1)"
    using pos log_less_iff [of 2 "\<bar>x\<bar>" "of_int (\<lfloor>log 2 \<bar>x\<bar>\<rfloor> + 1)"] by fastforce
  then show "\<bar>x\<bar> < 2 powi (\<lfloor>log 2 \<bar>x\<bar>\<rfloor> + 1)"
    by (simp only: powr_real_of_int' [of 2, simplified])
qed

lemma double_round_of_int:
  assumes "\<bar>k\<bar> < 2 ^ 53"
  shows "double_round (of_int k) = of_int k"
proof (cases "k = 0")
  case True
  then show ?thesis by (simp add: double_round_def)
next
  case False
  define e where "e = \<lfloor>log 2 \<bar>real_of_int k\<bar>\<rfloor>"
  have nz: "real_of_int k \<noteq> 0" using False by simp
  note b = binade_of [OF nz, folded e_def]
  have "1 \<le> \<bar>real_of_int k\<bar>" using False by (simp flip: of_int_abs)
  then have "0 \<le> log 2 \<bar>real_of_int k\<bar>" by simp
  then have e0: "0 \<le> e" by (simp add: e_def)
  have "\<bar>real_of_int k\<bar> < 2 ^ 53" using assms by (simp flip: of_int_abs)
  then have "log 2 \<bar>real_of_int k\<bar> < 53"
    using nz by (simp add: log_less_iff flip: powr_numeral)
  then have e52: "e \<le> 52" by (simp add: e_def floor_le_iff)
  have "(2::real) powi (e - 52) * 2 ^ nat (52 - e) = 2 powi (e - 52) * 2 powi (52 - e)"
    using e52 by (simp add: power_int_def)
  also have "\<dots> = 2 powi ((e - 52) + (52 - e))"
    by (rule power_int_add [symmetric]) simp
  finally have one: "(2::real) powi (e - 52) * 2 ^ nat (52 - e) = 1" by simp
  have "2 powi (e - 52) * real_of_int (k * 2 ^ nat (52 - e)) =
          real_of_int k * (2 powi (e - 52) * 2 ^ nat (52 - e))"
    by (simp add: mult_ac)
  also have "\<dots> = real_of_int k" by (simp only: one mult_1_right)
  finally have "real_of_int k = 2 powi (e - 52) * of_int (k * 2 ^ nat (52 - e))" by simp
  then show ?thesis by (rule double_round_exact [OF b])
qed

lemma double_round_numeral [simp]:
  "numeral n < (2 ^ 53 :: int) \<Longrightarrow> double_round (numeral n) = numeral n"
  using double_round_of_int [of "numeral n"] by simp

lemma double_round_neg_numeral [simp]:
  "numeral n < (2 ^ 53 :: int) \<Longrightarrow> double_round (- numeral n) = - numeral n"
  using double_round_of_int [of "- numeral n"] by simp

lemma double_round_zero [simp]: "double_round 0 = 0"
  by (simp add: double_round_def)

lemma double_round_one [simp]: "double_round 1 = 1"
  using double_round_of_int [of 1] by simp

lemma double_round_neg_one [simp]: "double_round (- 1) = - 1"
  using double_round_of_int [of "- 1"] by simp

lemma rne_floor: "rne y = \<lfloor>y\<rfloor> \<or> rne y = \<lfloor>y\<rfloor> + 1"
  by (simp add: rne_def Let_def)

lemma rne_mono:
  assumes "x \<le> y"
  shows "rne x \<le> rne y"
proof (cases "\<lfloor>x\<rfloor> = \<lfloor>y\<rfloor>")
  case True
  then show ?thesis using assms by (auto simp add: rne_def Let_def)
next
  case False
  then have "\<lfloor>x\<rfloor> + 1 \<le> \<lfloor>y\<rfloor>" using floor_mono [OF assms] by simp
  then show ?thesis using rne_floor [of x] rne_floor [of y] by auto
qed

lemma rne_minus: "rne (- y) = - rne y"
proof (cases "y = of_int \<lfloor>y\<rfloor>")
  case True
  then have "rne y = \<lfloor>y\<rfloor>" by (metis rne_of_int)
  moreover have "rne (- y) = - \<lfloor>y\<rfloor>" by (metis True of_int_minus rne_of_int)
  ultimately show ?thesis by simp
next
  case False
  then have a: "of_int \<lfloor>y\<rfloor> < y" using of_int_floor_le [of y] by linarith
  have b: "y < of_int \<lfloor>y\<rfloor> + 1" by linarith
  have fl: "\<lfloor>- y\<rfloor> = - \<lfloor>y\<rfloor> - 1"
  proof (rule floor_unique)
    show "of_int (- \<lfloor>y\<rfloor> - 1) \<le> - y"
      unfolding of_int_diff of_int_minus of_int_1 using b by linarith
    show "- y < of_int (- \<lfloor>y\<rfloor> - 1) + 1"
      unfolding of_int_diff of_int_minus of_int_1 using a by linarith
  qed
  have d: "- y - of_int (- \<lfloor>y\<rfloor> - 1) = 1 - (y - of_int \<lfloor>y\<rfloor>)" by simp
  show ?thesis
    unfolding rne_def Let_def fl d by (auto simp add: algebra_simps)
qed

lemma double_round_minus: "double_round (- x) = - double_round x"
  by (simp add: double_round_def Let_def rne_minus)

lemma ulp_times_52: "(2::real) powi (e - 52) * 2 ^ 52 = 2 powi e"
proof -
  have "(2::real) powi (e - 52) * 2 powi 52 = 2 powi ((e - 52) + 52)"
    by (rule power_int_add [symmetric]) simp
  then show ?thesis by simp
qed

lemma ulp_times_53: "(2::real) powi (e - 52) * 2 ^ 53 = 2 powi (e + 1)"
proof -
  have "(2::real) powi (e - 52) * 2 powi 53 = 2 powi ((e - 52) + 53)"
    by (rule power_int_add [symmetric]) simp
  then show ?thesis by (simp add: add.commute)
qed

lemma mantissa_bounds:
  assumes "2 powi e \<le> x" and "x < 2 powi (e + 1)"
  shows "2 ^ 52 \<le> rne (x / 2 powi (e - 52))" and "rne (x / 2 powi (e - 52)) \<le> 2 ^ 53"
proof -
  have u: "(0::real) < 2 powi (e - 52)" by simp
  have "2 powi e / 2 powi (e - 52) \<le> x / 2 powi (e - 52)"
    using assms(1) u by (simp add: divide_right_mono)
  moreover have "(2::real) powi e / 2 powi (e - 52) = of_int (2 ^ 52)"
    using ulp_times_52 [of e] u by (simp add: field_simps)
  ultimately have "rne (of_int (2 ^ 52)) \<le> rne (x / 2 powi (e - 52))"
    by (intro rne_mono) simp
  then show "2 ^ 52 \<le> rne (x / 2 powi (e - 52))" by (simp only: rne_of_int)
  have "x / 2 powi (e - 52) \<le> 2 powi (e + 1) / 2 powi (e - 52)"
    using assms(2) u by (simp add: divide_right_mono)
  moreover have "(2::real) powi (e + 1) / 2 powi (e - 52) = of_int (2 ^ 53)"
    using ulp_times_53 [of e] u by (simp add: field_simps)
  ultimately have "rne (x / 2 powi (e - 52)) \<le> rne (of_int (2 ^ 53))"
    by (intro rne_mono) simp
  then show "rne (x / 2 powi (e - 52)) \<le> 2 ^ 53" by (simp only: rne_of_int)
qed

lemma double_round_in_binade:
  assumes "2 powi e \<le> x" and "x < 2 powi (e + 1)"
  shows "2 powi e \<le> double_round x" and "double_round x \<le> 2 powi (e + 1)"
proof -
  have "(0::real) < 2 powi e" by simp
  then have pos: "0 < x" using assms(1) by linarith
  then have ax: "\<bar>x\<bar> = x" by simp
  have dr: "double_round x = 2 powi (e - 52) * of_int (rne (x / 2 powi (e - 52)))"
    using double_round_at [of e x] assms ax by simp
  note m = mantissa_bounds [OF assms]
  have "(2::real) powi e = 2 powi (e - 52) * of_int (2 ^ 52)"
    using ulp_times_52 [of e] by simp
  also have "\<dots> \<le> 2 powi (e - 52) * real_of_int (rne (x / 2 powi (e - 52)))"
    using m(1) by (intro mult_left_mono) simp_all
  finally show "2 powi e \<le> double_round x" unfolding dr .
  have "2 powi (e - 52) * real_of_int (rne (x / 2 powi (e - 52))) \<le> 2 powi (e - 52) * of_int (2 ^ 53)"
    using m(2) by (intro mult_left_mono) simp_all
  also have "\<dots> = (2::real) powi (e + 1)"
    using ulp_times_53 [of e] by simp
  finally show "double_round x \<le> 2 powi (e + 1)" unfolding dr .
qed

lemma double_round_positive:
  assumes "0 < x"
  shows "0 < double_round x"
proof -
  have nz: "x \<noteq> 0" and ax: "\<bar>x\<bar> = x" using assms by simp_all
  note b = binade_of [OF nz, unfolded ax]
  have "(0::real) < 2 powi \<lfloor>log 2 x\<rfloor>" by simp
  also have "\<dots> \<le> double_round x" by (rule double_round_in_binade(1) [OF b])
  finally show ?thesis .
qed

lemma double_round_mono_positive:
  assumes "0 < x" and "x \<le> y"
  shows "double_round x \<le> double_round y"
proof -
  have nzx: "x \<noteq> 0" and ax: "\<bar>x\<bar> = x" using assms by simp_all
  have nzy: "y \<noteq> 0" and ay: "\<bar>y\<bar> = y" using assms by simp_all
  define ex where "ex = \<lfloor>log 2 x\<rfloor>"
  define ey where "ey = \<lfloor>log 2 y\<rfloor>"
  note bx = binade_of [OF nzx, unfolded ax, folded ex_def]
  note bnd = binade_of [OF nzy, unfolded ay, folded ey_def]
  have "log 2 x \<le> log 2 y" using assms by simp
  then have le: "ex \<le> ey" unfolding ex_def ey_def by (rule floor_mono)
  show ?thesis
  proof (cases "ex = ey")
    case True
    have dx: "double_round x = 2 powi (ey - 52) * of_int (rne (x / 2 powi (ey - 52)))"
      using double_round_at [of ex x] bx ax True by simp
    have dy: "double_round y = 2 powi (ey - 52) * of_int (rne (y / 2 powi (ey - 52)))"
      using double_round_at [of ey y] bnd ay by simp
    have "x / 2 powi (ey - 52) \<le> y / 2 powi (ey - 52)"
      using assms(2) by (simp add: divide_right_mono)
    then have "rne (x / 2 powi (ey - 52)) \<le> rne (y / 2 powi (ey - 52))" by (rule rne_mono)
    then have "2 powi (ey - 52) * real_of_int (rne (x / 2 powi (ey - 52)))
          \<le> 2 powi (ey - 52) * real_of_int (rne (y / 2 powi (ey - 52)))"
      by (intro mult_left_mono) simp_all
    then show ?thesis unfolding dx dy .
  next
    case False
    then have "ex + 1 \<le> ey" using le by simp
    then have "(2::real) powi (ex + 1) \<le> 2 powi ey" by (intro power_int_increasing) simp_all
    moreover have "double_round x \<le> 2 powi (ex + 1)" by (rule double_round_in_binade(2) [OF bx])
    moreover have "2 powi ey \<le> double_round y" by (rule double_round_in_binade(1) [OF bnd])
    ultimately show ?thesis by linarith
  qed
qed

lemma double_round_mono:
  assumes "x \<le> y"
  shows "double_round x \<le> double_round y"
proof -
  consider "0 < x" | "x \<le> 0" "0 \<le> y" | "y < 0" using assms by linarith
  then show ?thesis
  proof cases
    case 1
    then show ?thesis using assms by (rule double_round_mono_positive)
  next
    case 2
    have "double_round x \<le> 0"
    proof (cases "x = 0")
      case True
      then show ?thesis by simp
    next
      case False
      then have "0 < - x" using 2 by simp
      then have "0 < double_round (- x)" by (rule double_round_positive)
      then show ?thesis by (simp add: double_round_minus)
    qed
    moreover have "0 \<le> double_round y"
    proof (cases "y = 0")
      case True
      then show ?thesis by simp
    next
      case False
      then have "0 < y" using 2 by simp
      then have "0 < double_round y" by (rule double_round_positive)
      then show ?thesis by simp
    qed
    ultimately show ?thesis by linarith
  next
    case 3
    then have "0 < - y" and "- y \<le> - x" using assms by simp_all
    then have "double_round (- y) \<le> double_round (- x)" by (rule double_round_mono_positive)
    then show ?thesis by (simp add: double_round_minus)
  qed
qed

lemma double_round_representation:
  assumes "x \<noteq> 0"
  shows "double_round x = 2 powi (\<lfloor>log 2 \<bar>x\<bar>\<rfloor> - 52) * of_int (rne (x / 2 powi (\<lfloor>log 2 \<bar>x\<bar>\<rfloor> - 52)))"
  using assms by (simp add: double_round_def Let_def)

lemma double_round_twice_fixed:
  assumes "double_round x = x"
  shows "double_round (2 * x) = 2 * x"
proof (cases "x = 0")
  case True
  then show ?thesis by simp
next
  case False
  define e where "e = \<lfloor>log 2 \<bar>x\<bar>\<rfloor>"
  define k where "k = rne (x / 2 powi (e - 52))"
  note b = binade_of [OF False, folded e_def]
  have x: "x = 2 powi (e - 52) * of_int k"
    using double_round_representation [OF False] assms by (simp add: e_def k_def)
  have two: "(2::real) powi (e + 1) = 2 * 2 powi e"
    by (simp add: power_int_add)
  have two': "(2::real) powi (e + 1 + 1) = 2 * 2 powi (e + 1)"
    by (simp add: power_int_add)
  have two'': "(2::real) powi (e + 1 - 52) = 2 * 2 powi (e - 52)"
  proof -
    have "(2::real) powi ((e - 52) + 1) = 2 powi (e - 52) * 2 powi 1"
      by (rule power_int_add) simp
    moreover have "e + 1 - 52 = (e - 52) + 1" by simp
    ultimately show ?thesis by simp
  qed
  show ?thesis
  proof (rule double_round_exact [of "e + 1" "2 * x" k])
    show "2 powi (e + 1) \<le> \<bar>2 * x\<bar>" using b(1) unfolding two by (simp add: abs_mult)
    show "\<bar>2 * x\<bar> < 2 powi (e + 1 + 1)" using b(2) unfolding two' by (simp add: abs_mult)
    show "2 * x = 2 powi (e + 1 - 52) * of_int k" unfolding two'' using x by simp
  qed
qed

lemma double_round_idem_positive:
  assumes "0 < x"
  shows "double_round (double_round x) = double_round x"
proof -
  have nz: "x \<noteq> 0" and ax: "\<bar>x\<bar> = x" using assms by simp_all
  define e where "e = \<lfloor>log 2 x\<rfloor>"
  define k where "k = rne (x / 2 powi (e - 52))"
  note b = binade_of [OF nz, unfolded ax, folded e_def]
  have dr: "double_round x = 2 powi (e - 52) * of_int k"
    using double_round_representation [OF nz] by (simp add: e_def k_def ax)
  note m = mantissa_bounds [OF b, folded k_def]
  note r = double_round_in_binade [OF b]
  have pos: "0 < double_round x" using assms by (rule double_round_positive)
  show ?thesis
  proof (cases "k = 2 ^ 53")
    case True
    have top: "double_round x = 2 powi (e + 1)"
      unfolding dr True using ulp_times_53 [of e] by simp
    have "double_round (2 powi (e + 1)) = 2 powi (e + 1)"
    proof (rule double_round_exact [of "e + 1" _ "2 ^ 52"])
      show "2 powi (e + 1) \<le> \<bar>(2::real) powi (e + 1)\<bar>" by simp
      have "(2::real) powi (e + 1 + 1) = 2 * 2 powi (e + 1)" by (simp add: power_int_add)
      then show "\<bar>(2::real) powi (e + 1)\<bar> < 2 powi (e + 1 + 1)" by simp
      show "(2::real) powi (e + 1) = 2 powi (e + 1 - 52) * real_of_int (2 ^ 52)"
        using ulp_times_52 [of "e + 1"] by simp
    qed
    then show ?thesis unfolding top .
  next
    case False
    then have "k < 2 ^ 53" using m(2) by simp
    then have "real_of_int k < real_of_int (2 ^ 53)" by (simp only: of_int_less_iff)
    then have "2 powi (e - 52) * real_of_int k < 2 powi (e - 52) * real_of_int (2 ^ 53)"
      by (intro mult_strict_left_mono) simp_all
    also have "\<dots> = (2::real) powi (e + 1)" using ulp_times_53 [of e] by simp
    finally have lt: "double_round x < 2 powi (e + 1)" unfolding dr .
    show ?thesis
    proof (rule double_round_exact [of e _ k])
      show "2 powi e \<le> \<bar>double_round x\<bar>" using r(1) pos by simp
      show "\<bar>double_round x\<bar> < 2 powi (e + 1)" using lt pos by simp
      show "double_round x = 2 powi (e - 52) * real_of_int k" by (rule dr)
    qed
  qed
qed

lemma double_round_idem: "double_round (double_round x) = double_round x"
proof -
  consider "0 < x" | "x = 0" | "0 < - x" by linarith
  then show ?thesis
  proof cases
    case 1
    then show ?thesis by (rule double_round_idem_positive)
  next
    case 2
    then show ?thesis by simp
  next
    case 3
    then have "double_round (double_round (- x)) = double_round (- x)"
      by (rule double_round_idem_positive)
    then show ?thesis by (simp add: double_round_minus)
  qed
qed

lemma double_round_error: "\<bar>double_round x - x\<bar> \<le> (1 / 2 ^ 53) * \<bar>x\<bar>"
proof (cases "x = 0")
  case True
  then show ?thesis by simp
next
  case False
  define e where "e = \<lfloor>log 2 \<bar>x\<bar>\<rfloor>"
  define u where "u = (2::real) powi (e - 52)"
  have u: "0 < u" by (simp add: u_def)
  note b = binade_of [OF False, folded e_def]
  have dr: "double_round x = u * of_int (rne (x / u))"
    using double_round_representation [OF False] by (simp add: e_def u_def)
  have "double_round x - x = u * (of_int (rne (x / u)) - x / u)"
    unfolding dr using u by (simp add: field_simps)
  then have "\<bar>double_round x - x\<bar> = u * \<bar>of_int (rne (x / u)) - x / u\<bar>"
    using u by (simp add: abs_mult)
  also have "\<dots> \<le> u * (1 / 2)"
    using u rne_near [of "x / u"] by (intro mult_left_mono) simp_all
  also have "\<dots> = (1 / 2 ^ 53) * (u * 2 ^ 52)" by simp
  also have "\<dots> = (1 / 2 ^ 53) * 2 powi e" unfolding u_def ulp_times_52 ..
  also have "\<dots> \<le> (1 / 2 ^ 53) * \<bar>x\<bar>" using b(1) by (intro mult_left_mono) simp_all
  finally show ?thesis .
qed

lemma double_round_negative:
  assumes "x < 0"
  shows "double_round x < 0"
proof -
  have "0 < double_round (- x)" using assms by (intro double_round_positive) simp
  then show ?thesis by (simp add: double_round_minus)
qed

lemma double_round_rounding: "rounding double_round"
  unfolding rounding_def
proof (intro conjI allI impI)
  fix x y :: real
  assume "x \<le> y"
  then show "double_round x \<le> double_round y" by (rule double_round_mono)
next
  fix x :: real
  show "double_round (double_round x) = double_round x" by (rule double_round_idem)
next
  fix x :: real
  assume "double_round x = x"
  then show "double_round (- x) = - x" by (simp add: double_round_minus)
next
  fix x :: real
  assume "double_round x = x"
  then show "double_round (2 * x) = 2 * x" by (rule double_round_twice_fixed)
next
  show "double_round 0 = 0" by simp
qed

lemma rne_tie_even:
  assumes "y = of_int f + 1 / 2" and "even f"
  shows "rne y = f"
proof -
  have "\<lfloor>y\<rfloor> = f" using assms(1) by (simp add: floor_eq_iff)
  then show ?thesis using assms by (simp add: rne_def)
qed

lemma double_round_half_ulp: "double_round (1 / 2 ^ 53) = 1 / 2 ^ 53"
  by (rule double_round_exact [of "- 53" _ "2 ^ 52"]) (simp_all add: power_int_minus)

lemma double_round_above_one: "double_round (1 + 1 / 2 ^ 53) = 1"
proof -
  have "double_round (1 + 1 / 2 ^ 53) =
      2 powi (0 - 52) * of_int (rne ((1 + 1 / 2 ^ 53) / 2 powi (0 - 52)))"
    by (rule double_round_at) simp_all
  also have "rne ((1 + 1 / 2 ^ 53) / 2 powi (0 - 52)) = 2 ^ 52"
    by (rule rne_tie_even) (simp_all add: power_int_minus)
  finally show ?thesis by (simp add: power_int_minus)
qed

lemma halving_keeps_negative:
  assumes "x < 0"
  shows "update_density double_round (- 1 / 2) x < 0"
proof -
  define y where "y = x * (- 1 / 2)"
  have y: "0 < y" using assms by (simp add: y_def)
  have "\<bar>double_round y - y\<bar> \<le> (1 / 2 ^ 53) * \<bar>y\<bar>" by (rule double_round_error)
  moreover have "\<bar>y\<bar> = y" using y by simp
  ultimately have "double_round y - y \<le> (1 / 2 ^ 53) * y" by linarith
  moreover have "(1 / 2 ^ 53) * y < y" using y by simp
  moreover have "x + 2 * y = 0" by (simp add: y_def)
  ultimately have "x + double_round y < 0" by linarith
  then have "double_round (x + double_round y) < 0" by (rule double_round_negative)
  then show ?thesis by (simp add: update_density_def y_def)
qed

section \<open>Properties of the TOV right-hand side\<close>

lemma and_then_Inr [simp]: "and_then (Inr v) k = k v"
  by (simp add: and_then_def)

lemma and_then_Inl [simp]: "and_then (Inl e) k = Inl e"
  by (simp add: and_then_def)

lemma fdiv_nonzero [simp]: "b \<noteq> 0 \<Longrightarrow> fdiv a b = Inr (a / b)"
  by (simp add: fdiv_def)

lemma fdiv_zero [simp]: "fdiv a 0 = Inl ZeroDivisionError"
  by (simp add: fdiv_def)

lemma fpow_nonneg: "0 \<le> a \<Longrightarrow> 0 < b \<Longrightarrow> fpow a b = Inr (a powr b)"
  by (simp add: fpow_def)

lemma dp_dr_positive_radius:
  assumes "0 < r" and "r \<noteq> 2 * m"
  shows "dp_dr r p m rho = Inr (- (rho + p) * (m + 4 * pi * r ^ 3 * p) / (r * (r - 2 * m)))"
  using assms by (simp add: dp_dr_def divide_divide_eq_left)

lemma dp_dr_schwarzschild:
  assumes "0 < r" and "r = 2 * m"
  shows "dp_dr r p m rho = Inl ZeroDivisionError"
  using assms by (simp add: dp_dr_def)

lemma dp_dr_centre: "r \<le> 0 \<Longrightarrow> dp_dr r p m rho = Inr 0"
  by (simp add: dp_dr_def)

lemma dp_dr_single_division:
  assumes "0 < r"
  shows "dp_dr r p m rho = fdiv (- (rho + p) * (m + 4 * pi * r ^ 3 * p)) (r * (r - 2 * m))"
proof (cases "r = 2 * m")
  case True
  with assms show ?thesis by (simp add: dp_dr_schwarzschild)
next
  case False
  with assms show ?thesis by (simp add: dp_dr_positive_radius)
qed

text \<open>
  C1. With \<open>rho\<close> the energy density that the equation of state gives at pressure \<open>p\<close>:
  at every radius \<open>r > 0\<close> the system returns for \<open>dp/dr\<close> the quotient of
  \<open>-(rho + p) (m + 4 pi r^3 p)\<close> by \<open>r (r - 2 m)\<close>, which is the real number
  \<open>-(rho + p) (m + 4 pi r^3 p) / (r (r - 2 m))\<close> wherever the divisor is not zero, and
  \<open>dm/dr = 4 pi r^2 rho\<close>; and at every \<open>r \<le> 0\<close> it returns \<open>dp/dr = 0\<close> exactly.
\<close>

theorem tov_equations_formula:
  assumes "eos_rho p = Inr rho"
  shows "(0 < r \<longrightarrow>
            tov_equations r (p, m) eos_rho =
              and_then (fdiv (- (rho + p) * (m + 4 * pi * r ^ 3 * p)) (r * (r - 2 * m)))
                (\<lambda>dp. Inr (dp, 4 * pi * r ^ 2 * rho)))
       \<and> (0 < r \<and> r \<noteq> 2 * m \<longrightarrow>
            tov_equations r (p, m) eos_rho =
              Inr (- (rho + p) * (m + 4 * pi * r ^ 3 * p) / (r * (r - 2 * m)),
                   4 * pi * r ^ 2 * rho))
       \<and> (r \<le> 0 \<longrightarrow> tov_equations r (p, m) eos_rho = Inr (0, 4 * pi * r ^ 2 * rho))"
proof (intro conjI impI)
  assume "0 < r"
  then show "tov_equations r (p, m) eos_rho =
      and_then (fdiv (- (rho + p) * (m + 4 * pi * r ^ 3 * p)) (r * (r - 2 * m)))
        (\<lambda>dp. Inr (dp, 4 * pi * r ^ 2 * rho))"
    using assms by (simp add: tov_equations_def dm_dr_def dp_dr_single_division)
next
  assume "0 < r \<and> r \<noteq> 2 * m"
  then show "tov_equations r (p, m) eos_rho =
      Inr (- (rho + p) * (m + 4 * pi * r ^ 3 * p) / (r * (r - 2 * m)), 4 * pi * r ^ 2 * rho)"
    using assms by (simp add: tov_equations_def dm_dr_def dp_dr_positive_radius)
next
  assume "r \<le> 0"
  then show "tov_equations r (p, m) eos_rho = Inr (0, 4 * pi * r ^ 2 * rho)"
    using assms by (simp add: tov_equations_def dm_dr_def dp_dr_centre)
qed

theorem tov_equations_formula_witness:
  "tov_equations 1 (0, 0) (\<lambda>p. Inr 1) = Inr (0, 4 * pi)
   \<and> tov_equations 3 (1, 1) (\<lambda>p. Inr 2) = Inr (- (1 + 108 * pi), 72 * pi)
   \<and> tov_equations 0 (5, 0) (\<lambda>p. Inr 1) = Inr (0, 0)"
  using tov_equations_formula [of "\<lambda>p. Inr 1" 0 1 1 0]
    tov_equations_formula [of "\<lambda>p. Inr 2" 1 2 3 1]
    tov_equations_formula [of "\<lambda>p. Inr 1" 5 1 0 0]
  by simp

text \<open>
  C9. For \<open>r > 0\<close> the evaluation of \<open>dp/dr\<close> divides by \<open>r\<close> and by \<open>r - 2 m\<close> with no
  guard: it fails with a division by zero exactly when \<open>r = 2 m\<close> and has a value
  otherwise. Only \<open>r \<le> 0\<close> is guarded, where the result is 0 whatever \<open>m\<close> is.
\<close>

theorem dp_dr_unguarded_division:
  "(0 < r \<longrightarrow> (dp_dr r p m rho = Inl ZeroDivisionError \<longleftrightarrow> r = 2 * m))
   \<and> (0 < r \<and> r \<noteq> 2 * m \<longrightarrow> (\<exists>v. dp_dr r p m rho = Inr v))
   \<and> (r \<le> 0 \<longrightarrow> dp_dr r p m rho = Inr 0)"
proof (intro conjI impI)
  assume "0 < r"
  show "dp_dr r p m rho = Inl ZeroDivisionError \<longleftrightarrow> r = 2 * m"
  proof (cases "r = 2 * m")
    case True
    with \<open>0 < r\<close> show ?thesis by (simp add: dp_dr_schwarzschild)
  next
    case False
    with \<open>0 < r\<close> show ?thesis by (simp add: dp_dr_positive_radius)
  qed
next
  assume "0 < r \<and> r \<noteq> 2 * m"
  then show "\<exists>v. dp_dr r p m rho = Inr v" by (simp add: dp_dr_positive_radius)
next
  assume "r \<le> 0"
  then show "dp_dr r p m rho = Inr 0" by (rule dp_dr_centre)
qed

theorem dp_dr_unguarded_division_witness:
  "dp_dr 2 1 1 1 = Inl ZeroDivisionError
   \<and> (\<exists>v. dp_dr 2 1 0 1 = Inr v)
   \<and> dp_dr 0 1 0 1 = Inr 0"
  using dp_dr_unguarded_division [of 2 1 1 1] dp_dr_unguarded_division [of 2 1 0 1]
    dp_dr_unguarded_division [of 0 1 0 1]
  by simp

section \<open>Properties of the simple polytrope\<close>

text \<open>
  C5. With positive nuclear density and pressure, for every rest density and pressure that
  are not negative: the pressure is \<open>p_nuclear (rho_rest / rho_nuclear)^3\<close>, the rest
  density is \<open>rho_nuclear (p / p_nuclear)^(1/3)\<close>, a cube root, and the energy density is
  the rest density plus \<open>p / 2\<close>.
\<close>

theorem simple_polytrope_laws:
  assumes "0 < rho_nuclear_v G" and "0 < p_nuclear_v G" and "0 \<le> rho_rest" and "0 \<le> p"
  shows "eos_p_simple G rho_rest = Inr (p_nuclear_v G * (rho_rest / rho_nuclear_v G) ^ 3)
       \<and> eos_rho_rest_simple G p = Inr (rho_nuclear_v G * (p / p_nuclear_v G) powr (1 / 3))
       \<and> (p / p_nuclear_v G) powr (1 / 3) = root 3 (p / p_nuclear_v G)
       \<and> eos_rho_simple G p = Inr (rho_nuclear_v G * (p / p_nuclear_v G) powr (1 / 3) + p / 2)"
proof -
  have q: "0 \<le> p / p_nuclear_v G" using assms by simp
  have rest: "eos_rho_rest_simple G p = Inr (rho_nuclear_v G * (p / p_nuclear_v G) powr (1 / 3))"
    using assms q by (simp add: eos_rho_rest_simple_def fpow_nonneg)
  have cube: "(p / p_nuclear_v G) powr (1 / 3) = root 3 (p / p_nuclear_v G)"
    using q by (simp add: root_powr_inverse)
  have pres: "eos_p_simple G rho_rest = Inr (p_nuclear_v G * (rho_rest / rho_nuclear_v G) ^ 3)"
    using assms by (simp add: eos_p_simple_def)
  have "eos_rho_simple G p = Inr (rho_nuclear_v G * (p / p_nuclear_v G) powr (1 / 3) + p / 2)"
    by (simp add: eos_rho_simple_def rest)
  with rest cube pres show ?thesis by simp
qed

theorem simple_polytrope_laws_witness:
  "eos_p_simple unit_globals 2 = Inr 8
   \<and> eos_rho_rest_simple unit_globals 1 = Inr 1
   \<and> eos_rho_simple unit_globals 1 = Inr (3 / 2)"
  using simple_polytrope_laws [of unit_globals 2 1]
  by (simp add: unit_globals_def)

section \<open>The constants of the notebook are valid\<close>

lemma ten_powr_lower: "23 * 10 ^ 13 < (10::real) powr (147 / 10)"
proof -
  have root: "(3::real) < sqrt 10" by (rule real_less_rsqrt) simp
  have "(10::real) powr (29 / 2) = 10 powr (14 + 1 / 2)" by simp
  also have "\<dots> = 10 powr 14 * 10 powr (1 / 2)" by (rule powr_add)
  also have "\<dots> = 10 ^ 14 * sqrt 10"
    by (simp add: powr_half_sqrt)
  finally have half: "3 * 10 ^ 14 < (10::real) powr (29 / 2)"
    using root by simp
  have "(23 * 10 ^ 13 :: real) < 3 * 10 ^ 14" by simp
  also note half
  also have "(10::real) powr (29 / 2) < 10 powr (147 / 10)"
    by (rule powr_less_mono) simp_all
  finally show ?thesis .
qed

lemma ten_powr_upper: "(10::real) powr (147 / 10) < 10 ^ 15"
proof -
  have "(10::real) powr (147 / 10) < 10 powr 15"
    by (rule powr_less_mono) simp_all
  then show ?thesis by simp
qed

lemma notebook_globals_valid:
  assumes "0 < c_rho" and "0 < c_p"
  shows "valid_globals (notebook_globals c_rho c_p c_m)"
proof -
  have "23 * 10 ^ 16 * c_rho = (23 * 10 ^ 13) * (1000 * c_rho)" by simp
  also have "\<dots> < 10 powr (147 / 10) * (1000 * c_rho)"
    using ten_powr_lower assms(1) by (intro mult_strict_right_mono) simp_all
  finally have low: "23 * 10 ^ 16 * c_rho < 10 powr (147 / 10) * 1000 * c_rho"
    by (simp add: mult.assoc)
  have "10 powr (147 / 10) * (1000 * c_rho) < 10 ^ 15 * (1000 * c_rho)"
    using ten_powr_upper assms(1) by (intro mult_strict_right_mono) simp_all
  then have high: "10 powr (147 / 10) * 1000 * c_rho < 10 ^ 15 * 1000 * c_rho"
    by (simp add: mult.assoc)
  have "valid_globals (notebook_globals c_rho c_p c_m) \<longleftrightarrow>
          0 < 23 * 10 ^ 16 * c_rho \<and> 0 < 3 * 10 ^ 32 * c_p \<and> (1::real) < 133 / 100
          \<and> 23 * 10 ^ 16 * c_rho < 10 powr (147 / 10) * 1000 * c_rho
          \<and> 10 powr (147 / 10) * 1000 * c_rho < 10 ^ 15 * 1000 * c_rho"
    unfolding valid_globals_def notebook_globals_def by auto
  then show ?thesis using low high assms by simp
qed

lemma polytropes_valid:
  assumes "polytropes name = Some (p1_cgs, gamma1, gamma2, gamma3)" and "0 < c_p"
  shows "valid_parameters (p1_cgs * (c_p / 10)) gamma1 gamma2 gamma3"
proof -
  have "(0::real) < 10 powr (34384 / 1000)" and "(0::real) < 10 powr (34504 / 1000)"
    by simp_all
  then show ?thesis
    using assms
    by (auto simp add: polytropes_def valid_parameters_def split: if_splits)
qed

section \<open>Properties of the piecewise polytrope\<close>

lemma piecewise_segments:
  assumes "a \<le> b" and "b \<le> c"
  shows "piecewise x (segment_conds x a b c) [f0, f1, f2, f3] =
           (if x < a then f0 x else if x < b then f1 x else if x < c then f2 x else f3 x)"
  using assms by (auto simp add: piecewise_def segment_conds_def and_then_def split: sum.splits)

lemma power_law_value:
  assumes "0 \<le> x" and "0 < x0" and "0 < g"
  shows "power_law a x x0 g = Inr (a * (x / x0) powr g)"
  using assms by (simp add: power_law_def fpow_nonneg)

lemma inverse_power_law_value:
  assumes "0 \<le> x" and "0 < x0" and "0 < g"
  shows "inverse_power_law x x0 g a = Inr ((x / x0) powr (1 / g) * a)"
  using assms by (simp add: inverse_power_law_def fpow_nonneg)

lemma powr_undo:
  assumes "0 \<le> q" and "0 < g"
  shows "(q powr g) powr (1 / g) = (q::real)"
  using assms by (simp add: powr_powr)

lemma inverse_of_power_law:
  assumes "0 \<le> x" and "0 < x0" and "0 < g" and "0 < a"
  shows "inverse_power_law (a * (x / x0) powr g) a g x0 = Inr x"
proof -
  have "0 \<le> a * (x / x0) powr g" using assms by simp
  then have "inverse_power_law (a * (x / x0) powr g) a g x0
      = Inr ((a * (x / x0) powr g / a) powr (1 / g) * x0)"
    using assms by (simp add: inverse_power_law_value)
  also have "a * (x / x0) powr g / a = (x / x0) powr g" using assms by simp
  also have "((x / x0) powr g) powr (1 / g) = x / x0"
    using assms by (simp add: powr_undo)
  also have "x / x0 * x0 = x" using assms by simp
  finally show ?thesis .
qed

lemma boundary_p0_value:
  assumes "valid_globals G" and "0 < gamma1"
  shows "boundary_p0 G p1 gamma1 = Inr (p0_value G p1 gamma1)"
  using assms by (simp add: boundary_p0_def p0_value_def valid_globals_def power_law_value)

lemma boundary_p2_value:
  assumes "valid_globals G" and "0 < gamma2"
  shows "boundary_p2 G p1 gamma2 = Inr (p2_value G p1 gamma2)"
  using assms by (simp add: boundary_p2_def p2_value_def valid_globals_def power_law_value)

lemma p0_value_bounds:
  assumes "valid_globals G" and "0 < p1" and "0 < gamma1"
  shows "0 < p0_value G p1 gamma1" and "p0_value G p1 gamma1 < p1"
proof -
  have q: "0 < rho0_v G / rho1_v G" "rho0_v G / rho1_v G < 1"
    using assms by (simp_all add: valid_globals_def)
  have "rho0_v G \<noteq> 0" "rho1_v G \<noteq> 0" using assms by (simp_all add: valid_globals_def)
  then have "0 < (rho0_v G / rho1_v G) powr gamma1" by simp
  then show "0 < p0_value G p1 gamma1" using assms by (simp add: p0_value_def)
  have "(rho0_v G / rho1_v G) powr gamma1 < 1 powr gamma1"
    using q assms by (intro powr_less_mono2) simp_all
  then show "p0_value G p1 gamma1 < p1" using assms by (simp add: p0_value_def)
qed

lemma p2_value_bounds:
  assumes "valid_globals G" and "0 < p1" and "0 < gamma2"
  shows "p1 < p2_value G p1 gamma2"
proof -
  have q: "1 < rho2_v G / rho1_v G"
    using assms by (simp add: valid_globals_def)
  have "1 powr gamma2 < (rho2_v G / rho1_v G) powr gamma2"
    using q assms by (intro powr_less_mono2) simp_all
  then show ?thesis using assms by (simp add: p2_value_def)
qed

lemma eos_p_polytropic_value:
  assumes G: "valid_globals G" and P: "valid_parameters p1 gamma1 gamma2 gamma3" and x: "0 \<le> x"
  shows "eos_p_polytropic G x p1 gamma1 gamma2 gamma3 =
     Inr (if x < rho0_v G then p0_value G p1 gamma1 * (x / rho0_v G) powr gamma0 G
          else if x < rho1_v G then p1 * (x / rho1_v G) powr gamma1
          else if x < rho2_v G then p1 * (x / rho1_v G) powr gamma2
          else p2_value G p1 gamma2 * (x / rho2_v G) powr gamma3)"
proof -
  have pos: "0 < rho0_v G" "0 < rho1_v G" "0 < rho2_v G" "rho0_v G \<le> rho1_v G"
    "rho1_v G \<le> rho2_v G" "0 < gamma0 G"
    using G by (simp_all add: valid_globals_def)
  have g: "0 < gamma1" "0 < gamma2" "0 < gamma3"
    using P by (simp_all add: valid_parameters_def)
  show ?thesis
    using pos g x
    by (simp add: eos_p_polytropic_def boundary_p0_value [OF G] boundary_p2_value [OF G]
        p_segments_def piecewise_segments power_law_value)
qed

lemma eos_rho_rest_polytropic_value:
  assumes G: "valid_globals G" and P: "valid_parameters p1 gamma1 gamma2 gamma3" and p: "0 \<le> p"
  shows "eos_rho_rest_polytropic G p p1 gamma1 gamma2 gamma3 =
     Inr (if p < p0_value G p1 gamma1
            then (p / p0_value G p1 gamma1) powr (1 / gamma0 G) * rho0_v G
          else if p < p1 then (p / p1) powr (1 / gamma1) * rho1_v G
          else if p < p2_value G p1 gamma2 then (p / p1) powr (1 / gamma2) * rho1_v G
          else (p / p2_value G p1 gamma2) powr (1 / gamma3) * rho2_v G)"
proof -
  have g: "0 < gamma1" "0 < gamma2" "0 < gamma3" "0 < p1"
    using P by (simp_all add: valid_parameters_def)
  have pos: "0 < gamma0 G" using G by (simp add: valid_globals_def)
  have b: "0 < p0_value G p1 gamma1" "p0_value G p1 gamma1 \<le> p1" "p1 \<le> p2_value G p1 gamma2"
    "0 < p2_value G p1 gamma2"
    using p0_value_bounds [OF G g(4) g(1)] p2_value_bounds [OF G g(4) g(2)] g by simp_all
  show ?thesis
    using pos g b p
    by (simp add: eos_rho_rest_polytropic_def boundary_p0_value [OF G] boundary_p2_value [OF G]
        rho_rest_segments_def piecewise_segments inverse_power_law_value)
qed

lemma scaled_powr_undo:
  assumes "0 \<le> q" and "0 < g" and "0 < a"
  shows "(a * q powr g / a) powr (1 / g) = (q::real)"
  using assms by (simp add: powr_powr)

lemma powr_below_one:
  assumes "0 \<le> q" and "q < 1" and "0 < g"
  shows "q powr g < (1::real)"
proof -
  have "q powr g < 1 powr g" using assms by (intro powr_less_mono2) simp_all
  then show ?thesis by simp
qed

lemma powr_mono_strict:
  assumes "0 \<le> q" and "q < q'" and "0 < g"
  shows "q powr g < q' powr (g::real)"
  using assms by (intro powr_less_mono2) simp_all

lemma powr_mono_weak:
  assumes "0 \<le> q" and "q \<le> q'" and "0 < g"
  shows "q powr g \<le> q' powr (g::real)"
  using assms by (intro powr_mono2) simp_all

lemma polytropic_round_trip:
  assumes G: "valid_globals G" and P: "valid_parameters p1 gamma1 gamma2 gamma3" and x: "0 \<le> x"
  shows "\<exists>p. eos_p_polytropic G x p1 gamma1 gamma2 gamma3 = Inr p
           \<and> eos_rho_rest_polytropic G p p1 gamma1 gamma2 gamma3 = Inr x"
proof -
  have g: "0 < gamma1" "0 < gamma2" "0 < gamma3" "0 < p1"
    using P by (simp_all add: valid_parameters_def)
  have r: "0 < rho0_v G" "0 < rho1_v G" "0 < rho2_v G" "rho0_v G < rho1_v G"
    "rho1_v G < rho2_v G" "0 < gamma0 G"
    using G by (simp_all add: valid_globals_def)
  define p0 where "p0 = p0_value G p1 gamma1"
  define p2 where "p2 = p2_value G p1 gamma2"
  have b: "0 < p0" "p0 < p1" "p1 < p2" "0 < p2"
    using p0_value_bounds [OF G g(4) g(1)] p2_value_bounds [OF G g(4) g(2)] g
    by (simp_all add: p0_def p2_def)
  note pv = eos_p_polytropic_value [OF G P x, folded p0_def p2_def]
  consider (crust) "x < rho0_v G" | (core1) "rho0_v G \<le> x" "x < rho1_v G"
    | (core2) "rho1_v G \<le> x" "x < rho2_v G" | (core3) "rho2_v G \<le> x"
    by linarith
  then show ?thesis
  proof cases
    case crust
    define p where "p = p0 * (x / rho0_v G) powr gamma0 G"
    have q: "0 \<le> x / rho0_v G" "x / rho0_v G < 1" using x r crust by simp_all
    have "(x / rho0_v G) powr gamma0 G < 1" using q r by (intro powr_below_one)
    then have lt: "p < p0" using b by (simp add: p_def)
    have nn: "0 \<le> p" using b by (simp add: p_def)
    have "eos_rho_rest_polytropic G p p1 gamma1 gamma2 gamma3
            = Inr ((p / p0) powr (1 / gamma0 G) * rho0_v G)"
      using eos_rho_rest_polytropic_value [OF G P nn, folded p0_def p2_def] lt by simp
    also have "(p / p0) powr (1 / gamma0 G) = x / rho0_v G"
      unfolding p_def using q r b by (intro scaled_powr_undo) simp_all
    also have "x / rho0_v G * rho0_v G = x" using r by simp
    finally show ?thesis using pv crust by (simp add: p_def)
  next
    case core1
    define p where "p = p1 * (x / rho1_v G) powr gamma1"
    have q: "0 \<le> x / rho1_v G" "x / rho1_v G < 1" using x r core1 by simp_all
    have "(x / rho1_v G) powr gamma1 < 1" using q g by (intro powr_below_one)
    then have lt: "p < p1" using g by (simp add: p_def)
    have "(rho0_v G / rho1_v G) powr gamma1 \<le> (x / rho1_v G) powr gamma1"
      using r core1 g by (intro powr_mono_weak) (simp_all add: divide_right_mono)
    then have ge: "p0 \<le> p" using g by (simp add: p_def p0_def p0_value_def)
    have nn: "0 \<le> p" using g by (simp add: p_def)
    have "eos_rho_rest_polytropic G p p1 gamma1 gamma2 gamma3
            = Inr ((p / p1) powr (1 / gamma1) * rho1_v G)"
      using eos_rho_rest_polytropic_value [OF G P nn, folded p0_def p2_def] lt ge by simp
    also have "(p / p1) powr (1 / gamma1) = x / rho1_v G"
      unfolding p_def using q g by (intro scaled_powr_undo) simp_all
    also have "x / rho1_v G * rho1_v G = x" using r by simp
    finally show ?thesis using pv core1 by (simp add: p_def)
  next
    case core2
    define p where "p = p1 * (x / rho1_v G) powr gamma2"
    have q: "0 \<le> x / rho1_v G" "1 \<le> x / rho1_v G" using x r core2 by simp_all
    have "1 powr gamma2 \<le> (x / rho1_v G) powr gamma2"
      using q g by (intro powr_mono_weak) simp_all
    then have ge: "p1 \<le> p" using g by (simp add: p_def)
    have "(x / rho1_v G) powr gamma2 < (rho2_v G / rho1_v G) powr gamma2"
      using q r core2 g by (intro powr_mono_strict) (simp_all add: divide_strict_right_mono)
    then have lt: "p < p2" using g by (simp add: p_def p2_def p2_value_def)
    have nn: "0 \<le> p" using g by (simp add: p_def)
    have "eos_rho_rest_polytropic G p p1 gamma1 gamma2 gamma3
            = Inr ((p / p1) powr (1 / gamma2) * rho1_v G)"
      using eos_rho_rest_polytropic_value [OF G P nn, folded p0_def p2_def] lt ge b by simp
    also have "(p / p1) powr (1 / gamma2) = x / rho1_v G"
      unfolding p_def using q g by (intro scaled_powr_undo) simp_all
    also have "x / rho1_v G * rho1_v G = x" using r by simp
    finally show ?thesis using pv core2 r by (simp add: p_def)
  next
    case core3
    define p where "p = p2 * (x / rho2_v G) powr gamma3"
    have q: "0 \<le> x / rho2_v G" "1 \<le> x / rho2_v G" using x r core3 by simp_all
    have "1 powr gamma3 \<le> (x / rho2_v G) powr gamma3"
      using q g by (intro powr_mono_weak) simp_all
    then have ge: "p2 \<le> p" using b by (simp add: p_def)
    have nn: "0 \<le> p" using b by (simp add: p_def)
    have "eos_rho_rest_polytropic G p p1 gamma1 gamma2 gamma3
            = Inr ((p / p2) powr (1 / gamma3) * rho2_v G)"
      using eos_rho_rest_polytropic_value [OF G P nn, folded p0_def p2_def] ge b by simp
    also have "(p / p2) powr (1 / gamma3) = x / rho2_v G"
      unfolding p_def using q g b by (intro scaled_powr_undo) simp_all
    also have "x / rho2_v G * rho2_v G = x" using r by simp
    finally show ?thesis using pv core3 r by (simp add: p_def)
  qed
qed

lemma simple_round_trip:
  assumes "0 < rho_nuclear_v G" and "0 < p_nuclear_v G" and "0 \<le> x"
  shows "\<exists>p. eos_p_simple G x = Inr p \<and> eos_rho_rest_simple G p = Inr x"
proof -
  define q where "q = x / rho_nuclear_v G"
  have q: "0 \<le> q" using assms by (simp add: q_def)
  have "eos_p_simple G x = Inr (q ^ 3 * p_nuclear_v G)"
    using assms by (simp add: eos_p_simple_def q_def)
  moreover have "eos_rho_rest_simple G (q ^ 3 * p_nuclear_v G) = Inr x"
  proof -
    have "0 \<le> q ^ 3" using q by simp
    have "(q ^ 3) powr (1 / 3) = q"
      using q by (simp add: powr_powr flip: powr_numeral)
    then show ?thesis
      using assms \<open>0 \<le> q ^ 3\<close> by (simp add: eos_rho_rest_simple_def fpow_nonneg q_def)
  qed
  ultimately show ?thesis by blast
qed

lemma eos_p_at_boundaries:
  assumes G: "valid_globals G" and P: "valid_parameters p1 gamma1 gamma2 gamma3"
  shows "eos_p_polytropic G (rho0_v G) p1 gamma1 gamma2 gamma3 = Inr (p0_value G p1 gamma1)"
    and "eos_p_polytropic G (rho1_v G) p1 gamma1 gamma2 gamma3 = Inr p1"
    and "eos_p_polytropic G (rho2_v G) p1 gamma1 gamma2 gamma3 = Inr (p2_value G p1 gamma2)"
proof -
  have r: "0 < rho0_v G" "0 < rho1_v G" "0 < rho2_v G" "rho0_v G < rho1_v G"
    "rho1_v G < rho2_v G"
    using G by (simp_all add: valid_globals_def)
  show "eos_p_polytropic G (rho0_v G) p1 gamma1 gamma2 gamma3 = Inr (p0_value G p1 gamma1)"
    using r eos_p_polytropic_value [OF G P, of "rho0_v G"] by (simp add: p0_value_def)
  show "eos_p_polytropic G (rho1_v G) p1 gamma1 gamma2 gamma3 = Inr p1"
    using r eos_p_polytropic_value [OF G P, of "rho1_v G"] by simp
  show "eos_p_polytropic G (rho2_v G) p1 gamma1 gamma2 gamma3 = Inr (p2_value G p1 gamma2)"
    using r eos_p_polytropic_value [OF G P, of "rho2_v G"] by simp
qed

lemma eos_rho_rest_at_boundaries:
  assumes G: "valid_globals G" and P: "valid_parameters p1 gamma1 gamma2 gamma3"
  shows "eos_rho_rest_polytropic G (p0_value G p1 gamma1) p1 gamma1 gamma2 gamma3 = Inr (rho0_v G)"
    and "eos_rho_rest_polytropic G p1 p1 gamma1 gamma2 gamma3 = Inr (rho1_v G)"
    and "eos_rho_rest_polytropic G (p2_value G p1 gamma2) p1 gamma1 gamma2 gamma3 = Inr (rho2_v G)"
proof -
  have r: "0 \<le> rho0_v G" "0 \<le> rho1_v G" "0 \<le> rho2_v G"
    using G by (simp_all add: valid_globals_def)
  show "eos_rho_rest_polytropic G (p0_value G p1 gamma1) p1 gamma1 gamma2 gamma3 = Inr (rho0_v G)"
    using polytropic_round_trip [OF G P r(1)] eos_p_at_boundaries(1) [OF G P] by auto
  show "eos_rho_rest_polytropic G p1 p1 gamma1 gamma2 gamma3 = Inr (rho1_v G)"
    using polytropic_round_trip [OF G P r(2)] eos_p_at_boundaries(2) [OF G P] by auto
  show "eos_rho_rest_polytropic G (p2_value G p1 gamma2) p1 gamma1 gamma2 gamma3 = Inr (rho2_v G)"
    using polytropic_round_trip [OF G P r(3)] eos_p_at_boundaries(3) [OF G P] by auto
qed

lemma next_constant_value:
  assumes "rho \<noteq> 0" and "ga \<noteq> 1" and "gb \<noteq> 1"
  shows "next_constant C p rho ga gb = Inr (C + p / rho * (1 / (ga - 1) - 1 / (gb - 1)))"
  using assms by (simp add: next_constant_def)

lemma energy_law_value:
  assumes "rho_rest p = Inr rr" and "g \<noteq> 1"
  shows "energy_law C rho_rest g p = Inr (C * rr + p / (g - 1))"
  using assms by (simp add: energy_law_def)

lemma energy_step:
  assumes "rho \<noteq> 0"
  shows "(C + p / rho * (a - b)) * rho + p * b = C * rho + p * (a::real)"
  using assms by (simp add: field_simps)

lemma pressure_laws_agree:
  assumes G: "valid_globals G" and P: "valid_parameters p1 gamma1 gamma2 gamma3"
    and p0: "p0 = p0_value G p1 gamma1" and p2: "p2 = p2_value G p1 gamma2"
  shows "laws_agree (p_segments G p0 p1 p2 gamma1 gamma2 gamma3) 0 (rho0_v G)
           (\<lambda>rho. eos_p_polytropic G rho p1 gamma1 gamma2 gamma3)"
    and "laws_agree (p_segments G p0 p1 p2 gamma1 gamma2 gamma3) 1 (rho1_v G)
           (\<lambda>rho. eos_p_polytropic G rho p1 gamma1 gamma2 gamma3)"
    and "laws_agree (p_segments G p0 p1 p2 gamma1 gamma2 gamma3) 2 (rho2_v G)
           (\<lambda>rho. eos_p_polytropic G rho p1 gamma1 gamma2 gamma3)"
proof -
  have g: "0 < gamma1" "0 < gamma2" "0 < gamma3"
    using P by (simp_all add: valid_parameters_def)
  have r: "0 < rho0_v G" "0 < rho1_v G" "0 < rho2_v G" "0 < gamma0 G"
    using G by (simp_all add: valid_globals_def)
  show "laws_agree (p_segments G p0 p1 p2 gamma1 gamma2 gamma3) 0 (rho0_v G)
           (\<lambda>rho. eos_p_polytropic G rho p1 gamma1 gamma2 gamma3)"
    using g r eos_p_at_boundaries(1) [OF G P]
    by (simp add: laws_agree_def p_segments_def power_law_value p0 p0_value_def)
  show "laws_agree (p_segments G p0 p1 p2 gamma1 gamma2 gamma3) 1 (rho1_v G)
           (\<lambda>rho. eos_p_polytropic G rho p1 gamma1 gamma2 gamma3)"
    using g r eos_p_at_boundaries(2) [OF G P]
    by (simp add: laws_agree_def p_segments_def power_law_value)
  show "laws_agree (p_segments G p0 p1 p2 gamma1 gamma2 gamma3) 2 (rho2_v G)
           (\<lambda>rho. eos_p_polytropic G rho p1 gamma1 gamma2 gamma3)"
    using g r eos_p_at_boundaries(3) [OF G P]
    by (simp add: laws_agree_def p_segments_def power_law_value p2 p2_value_def)
qed

lemma running_constants_value:
  assumes G: "valid_globals G" and P: "valid_parameters p1 gamma1 gamma2 gamma3"
  shows "running_constants G (p0_value G p1 gamma1) p1 (p2_value G p1 gamma2) gamma1 gamma2 gamma3
           = Inr (1, C1_value G p1 gamma1, C2_value G p1 gamma1 gamma2,
                  C3_value G p1 gamma1 gamma2 gamma3)"
proof -
  have g: "gamma1 \<noteq> 1" "gamma2 \<noteq> 1" "gamma3 \<noteq> 1"
    using P by (simp_all add: valid_parameters_def)
  have r: "rho0_v G \<noteq> 0" "rho1_v G \<noteq> 0" "rho2_v G \<noteq> 0" "gamma0 G \<noteq> 1"
    using G by (simp_all add: valid_globals_def)
  show ?thesis
    using g r
    by (simp add: running_constants_def next_constant_value C1_value_def C2_value_def
        C3_value_def)
qed

lemma eos_rho_polytropic_value:
  assumes G: "valid_globals G" and P: "valid_parameters p1 gamma1 gamma2 gamma3"
  shows "eos_rho_polytropic G p p1 gamma1 gamma2 gamma3 =
     (let rho_rest = (\<lambda>p. eos_rho_rest_polytropic G p p1 gamma1 gamma2 gamma3) in
      if p < p0_value G p1 gamma1 then energy_law 1 rho_rest (gamma0 G) p
      else if p < p1 then energy_law (C1_value G p1 gamma1) rho_rest gamma1 p
      else if p < p2_value G p1 gamma2 then energy_law (C2_value G p1 gamma1 gamma2) rho_rest gamma2 p
      else energy_law (C3_value G p1 gamma1 gamma2 gamma3) rho_rest gamma3 p)"
proof -
  have g: "0 < gamma1" "0 < gamma2" "0 < gamma3" "0 < p1"
    using P by (simp_all add: valid_parameters_def)
  have b: "p0_value G p1 gamma1 \<le> p1" "p1 \<le> p2_value G p1 gamma2"
    using p0_value_bounds [OF G g(4) g(1)] p2_value_bounds [OF G g(4) g(2)] by simp_all
  show ?thesis
    using g b
    by (simp add: eos_rho_polytropic_def boundary_p0_value [OF G] boundary_p2_value [OF G]
        running_constants_value [OF G P] rho_segments_def piecewise_segments)
qed

lemma energy_laws_agree:
  assumes G: "valid_globals G" and P: "valid_parameters p1 gamma1 gamma2 gamma3"
    and p0: "p0 = p0_value G p1 gamma1" and p2: "p2 = p2_value G p1 gamma2"
    and C: "C0 = 1" "C1 = C1_value G p1 gamma1" "C2 = C2_value G p1 gamma1 gamma2"
      "C3 = C3_value G p1 gamma1 gamma2 gamma3"
    and rr: "rho_rest = (\<lambda>p. eos_rho_rest_polytropic G p p1 gamma1 gamma2 gamma3)"
  shows "laws_agree (rho_segments G rho_rest C0 C1 C2 C3 gamma1 gamma2 gamma3) 0 p0
           (\<lambda>p. eos_rho_polytropic G p p1 gamma1 gamma2 gamma3)"
    and "laws_agree (rho_segments G rho_rest C0 C1 C2 C3 gamma1 gamma2 gamma3) 1 p1
           (\<lambda>p. eos_rho_polytropic G p p1 gamma1 gamma2 gamma3)"
    and "laws_agree (rho_segments G rho_rest C0 C1 C2 C3 gamma1 gamma2 gamma3) 2 p2
           (\<lambda>p. eos_rho_polytropic G p p1 gamma1 gamma2 gamma3)"
proof -
  have g: "gamma1 \<noteq> 1" "gamma2 \<noteq> 1" "gamma3 \<noteq> 1" "0 < gamma1" "0 < gamma2" "0 < p1"
    using P by (simp_all add: valid_parameters_def)
  have r: "rho0_v G \<noteq> 0" "rho1_v G \<noteq> 0" "rho2_v G \<noteq> 0" "gamma0 G \<noteq> 1"
    using G by (simp_all add: valid_globals_def)
  have b: "p0_value G p1 gamma1 < p1" "p1 < p2_value G p1 gamma2"
    using p0_value_bounds [OF G g(6) g(4)] p2_value_bounds [OF G g(6) g(5)] by simp_all
  note at = eos_rho_rest_at_boundaries [OF G P]
  have e0: "(1 + p0 / rho0_v G * (1 / (gamma0 G - 1) - 1 / (gamma1 - 1))) * rho0_v G
              + p0 * (1 / (gamma1 - 1)) = 1 * rho0_v G + p0 * (1 / (gamma0 G - 1))"
    using r(1) by (rule energy_step)
  have e1: "(C1 + p1 / rho1_v G * (1 / (gamma1 - 1) - 1 / (gamma2 - 1))) * rho1_v G
              + p1 * (1 / (gamma2 - 1)) = C1 * rho1_v G + p1 * (1 / (gamma1 - 1))"
    using r(2) by (rule energy_step)
  have e2: "(C2 + p2 / rho2_v G * (1 / (gamma2 - 1) - 1 / (gamma3 - 1))) * rho2_v G
              + p2 * (1 / (gamma3 - 1)) = C2 * rho2_v G + p2 * (1 / (gamma2 - 1))"
    using r(3) by (rule energy_step)
  show "laws_agree (rho_segments G rho_rest C0 C1 C2 C3 gamma1 gamma2 gamma3) 0 p0
           (\<lambda>p. eos_rho_polytropic G p p1 gamma1 gamma2 gamma3)"
    using g r b at(1) e0
    by (simp add: laws_agree_def rho_segments_def eos_rho_polytropic_value [OF G P]
        energy_law_value [where rr = "rho0_v G"] rr p0 C C1_value_def)
  show "laws_agree (rho_segments G rho_rest C0 C1 C2 C3 gamma1 gamma2 gamma3) 1 p1
           (\<lambda>p. eos_rho_polytropic G p p1 gamma1 gamma2 gamma3)"
    using g r b at(2) e1
    by (simp add: laws_agree_def rho_segments_def eos_rho_polytropic_value [OF G P]
        energy_law_value [where rr = "rho1_v G"] rr C(2) C(3) C2_value_def)
  show "laws_agree (rho_segments G rho_rest C0 C1 C2 C3 gamma1 gamma2 gamma3) 2 p2
           (\<lambda>p. eos_rho_polytropic G p p1 gamma1 gamma2 gamma3)"
    using g r b at(3) e2
    by (simp add: laws_agree_def rho_segments_def eos_rho_polytropic_value [OF G P]
        energy_law_value [where rr = "rho2_v G"] rr p2 C(3) C(4) C3_value_def)
qed

text \<open>
  C2. For valid constants and parameters and every rest density \<open>x \<ge> 0\<close>, both
  equations of state give a pressure at \<open>x\<close>, and the rest density they give back at
  that pressure is \<open>x\<close>.
\<close>

theorem eos_round_trip:
  assumes "valid_globals G" and "valid_parameters p1 gamma1 gamma2 gamma3" and "0 \<le> x"
  shows "(\<exists>p. eos_p_simple G x = Inr p \<and> eos_rho_rest_simple G p = Inr x)
       \<and> (\<exists>p. eos_p_polytropic G x p1 gamma1 gamma2 gamma3 = Inr p
              \<and> eos_rho_rest_polytropic G p p1 gamma1 gamma2 gamma3 = Inr x)"
proof -
  have "0 < rho_nuclear_v G" and "0 < p_nuclear_v G"
    using assms(1) by (simp_all add: valid_globals_def)
  then show ?thesis
    using simple_round_trip [of G x] polytropic_round_trip [OF assms] assms(3) by simp
qed

theorem eos_round_trip_witness:
  "(\<exists>p. eos_p_simple unit_globals 3 = Inr p \<and> eos_rho_rest_simple unit_globals p = Inr 3)
   \<and> (\<exists>p. eos_p_polytropic unit_globals 3 1 2 3 2 = Inr p
          \<and> eos_rho_rest_polytropic unit_globals p 1 2 3 2 = Inr 3)"
  using eos_round_trip [of unit_globals 1 2 3 2 3]
  by (simp add: valid_globals_def valid_parameters_def unit_globals_def)

lemma continuous_on_split:
  fixes f g :: "real \<Rightarrow> real"
  assumes f: "continuous_on {0..} f" and g: "continuous_on {0..} g"
    and a: "0 \<le> a" and eq: "f a = g a"
  shows "continuous_on {0..} (\<lambda>x. if x < a then f x else g x)"
proof -
  have "continuous_on ({0..a} \<union> {a..}) (\<lambda>x. if x < a then f x else g x)"
  proof (rule continuous_on_If)
    show "closed {0..a}" and "closed {a..}" by simp_all
    show "continuous_on {0..a} f" using f by (rule continuous_on_subset) auto
    show "continuous_on {a..} g" using g by (rule continuous_on_subset) (use a in auto)
    show "f x = g x" if "x \<in> {0..a}" and "\<not> x < a" for x
      using that eq by (simp add: antisym)
    show "f x = g x" if "x \<in> {a..}" and "x < a" for x
      using that by simp
  qed
  moreover have "{0..a} \<union> {a..} = {0..}" using a by auto
  ultimately show ?thesis by simp
qed

lemma continuous_on_power_law:
  fixes K x0 g :: real
  assumes "0 < x0" and "0 < g"
  shows "continuous_on {0..} (\<lambda>x. K * (x / x0) powr g)"
proof -
  have "continuous_on {0..} (\<lambda>x. (x / x0) powr g)"
    by (rule continuous_on_powr') (use assms in \<open>auto intro!: continuous_intros\<close>)
  then show ?thesis by (rule continuous_on_mult [OF continuous_on_const])
qed

lemma continuous_on_inverse_law:
  fixes K x0 g :: real
  assumes "0 < x0" and "0 < g"
  shows "continuous_on {0..} (\<lambda>x. (x / x0) powr (1 / g) * K)"
proof -
  have "continuous_on {0..} (\<lambda>x. (x / x0) powr (1 / g))"
    by (rule continuous_on_powr') (use assms in \<open>auto intro!: continuous_intros\<close>)
  then show ?thesis by (rule continuous_on_mult [OF _ continuous_on_const])
qed

lemma eos_p_polytropic_closed:
  assumes "valid_globals G" and "valid_parameters p1 gamma1 gamma2 gamma3" and "0 \<le> x"
  shows "eos_p_polytropic G x p1 gamma1 gamma2 gamma3 = Inr (p_closed G p1 gamma1 gamma2 gamma3 x)"
  unfolding p_closed_def using assms by (rule eos_p_polytropic_value)

lemma eos_rho_rest_polytropic_closed:
  assumes "valid_globals G" and "valid_parameters p1 gamma1 gamma2 gamma3" and "0 \<le> p"
  shows "eos_rho_rest_polytropic G p p1 gamma1 gamma2 gamma3 =
           Inr (rho_rest_closed G p1 gamma1 gamma2 gamma3 p)"
  unfolding rho_rest_closed_def using assms by (rule eos_rho_rest_polytropic_value)

lemma eos_rho_polytropic_closed:
  assumes G: "valid_globals G" and P: "valid_parameters p1 gamma1 gamma2 gamma3" and p: "0 \<le> p"
  shows "eos_rho_polytropic G p p1 gamma1 gamma2 gamma3 =
           Inr (rho_closed G p1 gamma1 gamma2 gamma3 p)"
proof -
  have g: "gamma1 \<noteq> 1" "gamma2 \<noteq> 1" "gamma3 \<noteq> 1"
    using P by (simp_all add: valid_parameters_def)
  have g0: "gamma0 G \<noteq> 1" using G by (simp add: valid_globals_def)
  note rr = eos_rho_rest_polytropic_closed [OF G P p]
  show ?thesis
    using g g0
    by (simp add: eos_rho_polytropic_value [OF G P] rho_closed_def
        energy_law_value
          [where rho_rest = "\<lambda>p. eos_rho_rest_polytropic G p p1 gamma1 gamma2 gamma3", OF rr])
qed

lemma continuous_on_p_closed:
  assumes G: "valid_globals G" and P: "valid_parameters p1 gamma1 gamma2 gamma3"
  shows "continuous_on {0..} (p_closed G p1 gamma1 gamma2 gamma3)"
proof -
  have g: "0 < gamma1" "0 < gamma2" "0 < gamma3"
    using P by (simp_all add: valid_parameters_def)
  have r: "0 < rho0_v G" "0 < rho1_v G" "0 < rho2_v G" "0 < gamma0 G"
    "rho0_v G < rho1_v G" "rho1_v G < rho2_v G"
    using G by (simp_all add: valid_globals_def)
  have "continuous_on {0..} (\<lambda>x.
      if x < rho0_v G then p0_value G p1 gamma1 * (x / rho0_v G) powr gamma0 G
      else if x < rho1_v G then p1 * (x / rho1_v G) powr gamma1
      else if x < rho2_v G then p1 * (x / rho1_v G) powr gamma2
      else p2_value G p1 gamma2 * (x / rho2_v G) powr gamma3)"
    using g r
    by (intro continuous_on_split continuous_on_power_law)
      (simp_all add: p0_value_def p2_value_def)
  then show ?thesis unfolding p_closed_def [abs_def] .
qed

lemma rho_rest_closed_at_boundaries:
  assumes G: "valid_globals G" and P: "valid_parameters p1 gamma1 gamma2 gamma3"
  shows "rho_rest_closed G p1 gamma1 gamma2 gamma3 (p0_value G p1 gamma1) = rho0_v G"
    and "rho_rest_closed G p1 gamma1 gamma2 gamma3 p1 = rho1_v G"
    and "rho_rest_closed G p1 gamma1 gamma2 gamma3 (p2_value G p1 gamma2) = rho2_v G"
proof -
  have g: "0 < gamma1" "0 < gamma2" "0 < p1"
    using P by (simp_all add: valid_parameters_def)
  have b: "0 \<le> p0_value G p1 gamma1" "0 \<le> p1" "0 \<le> p2_value G p1 gamma2"
    using p0_value_bounds [OF G g(3) g(1)] p2_value_bounds [OF G g(3) g(2)] g by simp_all
  show "rho_rest_closed G p1 gamma1 gamma2 gamma3 (p0_value G p1 gamma1) = rho0_v G"
    using eos_rho_rest_polytropic_closed [OF G P b(1)] eos_rho_rest_at_boundaries(1) [OF G P]
    by simp
  show "rho_rest_closed G p1 gamma1 gamma2 gamma3 p1 = rho1_v G"
    using eos_rho_rest_polytropic_closed [OF G P b(2)] eos_rho_rest_at_boundaries(2) [OF G P]
    by simp
  show "rho_rest_closed G p1 gamma1 gamma2 gamma3 (p2_value G p1 gamma2) = rho2_v G"
    using eos_rho_rest_polytropic_closed [OF G P b(3)] eos_rho_rest_at_boundaries(3) [OF G P]
    by simp
qed

lemma continuous_on_rho_rest_closed:
  assumes G: "valid_globals G" and P: "valid_parameters p1 gamma1 gamma2 gamma3"
  shows "continuous_on {0..} (rho_rest_closed G p1 gamma1 gamma2 gamma3)"
proof -
  have g: "0 < gamma1" "0 < gamma2" "0 < gamma3" "0 < p1"
    using P by (simp_all add: valid_parameters_def)
  have r: "0 < gamma0 G" using G by (simp add: valid_globals_def)
  define p0 where "p0 = p0_value G p1 gamma1"
  define p2 where "p2 = p2_value G p1 gamma2"
  have b: "0 < p0" "p0 < p1" "p1 < p2" "0 < p2"
    using p0_value_bounds [OF G g(4) g(1)] p2_value_bounds [OF G g(4) g(2)] g
    by (simp_all add: p0_def p2_def)
  note at = rho_rest_closed_at_boundaries [OF G P, unfolded rho_rest_closed_def, folded p0_def p2_def]
  have e0: "(p0 / p0) powr (1 / gamma0 G) * rho0_v G = (p0 / p1) powr (1 / gamma1) * rho1_v G"
    using at(1) b by simp
  have e1: "(p1 / p1) powr (1 / gamma1) * rho1_v G = (p1 / p1) powr (1 / gamma2) * rho1_v G"
    by simp
  have "(p1 * (rho2_v G / rho1_v G) powr gamma2 / p1) powr (1 / gamma2) = rho2_v G / rho1_v G"
    using g G by (intro scaled_powr_undo) (simp_all add: valid_globals_def)
  then have "(p2 / p1) powr (1 / gamma2) * rho1_v G = rho2_v G"
    using G by (simp add: p2_def p2_value_def valid_globals_def)
  then have e2: "(p2 / p1) powr (1 / gamma2) * rho1_v G = (p2 / p2) powr (1 / gamma3) * rho2_v G"
    using b by simp
  have "continuous_on {0..} (\<lambda>p.
      if p < p0 then (p / p0) powr (1 / gamma0 G) * rho0_v G
      else if p < p1 then (p / p1) powr (1 / gamma1) * rho1_v G
      else if p < p2 then (p / p1) powr (1 / gamma2) * rho1_v G
      else (p / p2) powr (1 / gamma3) * rho2_v G)"
  proof (intro continuous_on_split continuous_on_inverse_law)
    show "(p0 / p0) powr (1 / gamma0 G) * rho0_v G =
            (if p0 < p1 then (p0 / p1) powr (1 / gamma1) * rho1_v G
             else if p0 < p2 then (p0 / p1) powr (1 / gamma2) * rho1_v G
             else (p0 / p2) powr (1 / gamma3) * rho2_v G)"
      using b e0 by simp
    show "(p1 / p1) powr (1 / gamma1) * rho1_v G =
            (if p1 < p2 then (p1 / p1) powr (1 / gamma2) * rho1_v G
             else (p1 / p2) powr (1 / gamma3) * rho2_v G)"
      using b e1 by simp
    show "(p2 / p1) powr (1 / gamma2) * rho1_v G = (p2 / p2) powr (1 / gamma3) * rho2_v G"
      by (rule e2)
  qed (use g r b in simp_all)
  then show ?thesis unfolding rho_rest_closed_def [abs_def] p0_def p2_def .
qed

lemma continuous_on_energy_branch:
  fixes C g :: real
  assumes "continuous_on {0..} rr"
  shows "continuous_on {0..} (\<lambda>p. C * rr p + p / (g - 1))"
proof -
  have "continuous_on {0..} (\<lambda>p. C * rr p + p * inverse (g - 1))"
    using assms by (intro continuous_intros)
  then show ?thesis by (simp add: divide_inverse)
qed

lemma continuous_on_rho_closed:
  assumes G: "valid_globals G" and P: "valid_parameters p1 gamma1 gamma2 gamma3"
  shows "continuous_on {0..} (rho_closed G p1 gamma1 gamma2 gamma3)"
proof -
  have g: "0 < gamma1" "0 < gamma2" "0 < gamma3" "0 < p1"
    using P by (simp_all add: valid_parameters_def)
  have r: "rho0_v G \<noteq> 0" "rho1_v G \<noteq> 0" "rho2_v G \<noteq> 0"
    using G by (simp_all add: valid_globals_def)
  define p0 where "p0 = p0_value G p1 gamma1"
  define p2 where "p2 = p2_value G p1 gamma2"
  define rr where "rr = rho_rest_closed G p1 gamma1 gamma2 gamma3"
  define C1 where "C1 = C1_value G p1 gamma1"
  define C2 where "C2 = C2_value G p1 gamma1 gamma2"
  define C3 where "C3 = C3_value G p1 gamma1 gamma2 gamma3"
  have b: "0 < p0" "p0 < p1" "p1 < p2" "0 < p2"
    using p0_value_bounds [OF G g(4) g(1)] p2_value_bounds [OF G g(4) g(2)] g
    by (simp_all add: p0_def p2_def)
  have rrc: "continuous_on {0..} rr"
    unfolding rr_def by (rule continuous_on_rho_rest_closed [OF G P])
  have at: "rr p0 = rho0_v G" "rr p1 = rho1_v G" "rr p2 = rho2_v G"
    using rho_rest_closed_at_boundaries [OF G P] by (simp_all add: rr_def p0_def p2_def)
  have e0: "1 * rho0_v G + p0 / (gamma0 G - 1) = C1 * rho0_v G + p0 / (gamma1 - 1)"
    using energy_step [OF r(1), of 1 p0 "1 / (gamma0 G - 1)" "1 / (gamma1 - 1)"]
    by (simp add: C1_def C1_value_def p0_def)
  have e1: "C1 * rho1_v G + p1 / (gamma1 - 1) = C2 * rho1_v G + p1 / (gamma2 - 1)"
    using energy_step [OF r(2), of C1 p1 "1 / (gamma1 - 1)" "1 / (gamma2 - 1)"]
    by (simp add: C2_def C2_value_def C1_def)
  have e2: "C2 * rho2_v G + p2 / (gamma2 - 1) = C3 * rho2_v G + p2 / (gamma3 - 1)"
    using energy_step [OF r(3), of C2 p2 "1 / (gamma2 - 1)" "1 / (gamma3 - 1)"]
    by (simp add: C3_def C3_value_def C2_def p2_def)
  have "continuous_on {0..} (\<lambda>p.
      if p < p0 then 1 * rr p + p / (gamma0 G - 1)
      else if p < p1 then C1 * rr p + p / (gamma1 - 1)
      else if p < p2 then C2 * rr p + p / (gamma2 - 1)
      else C3 * rr p + p / (gamma3 - 1))"
  proof (intro continuous_on_split continuous_on_energy_branch rrc)
    show "1 * rr p0 + p0 / (gamma0 G - 1) =
            (if p0 < p1 then C1 * rr p0 + p0 / (gamma1 - 1)
             else if p0 < p2 then C2 * rr p0 + p0 / (gamma2 - 1)
             else C3 * rr p0 + p0 / (gamma3 - 1))"
      using b e0 at by simp
    show "C1 * rr p1 + p1 / (gamma1 - 1) =
            (if p1 < p2 then C2 * rr p1 + p1 / (gamma2 - 1)
             else C3 * rr p1 + p1 / (gamma3 - 1))"
      using b e1 at by simp
    show "C2 * rr p2 + p2 / (gamma2 - 1) = C3 * rr p2 + p2 / (gamma3 - 1)"
      using e2 at by simp
  qed (use b g in simp_all)
  then show ?thesis
    unfolding rho_closed_def [abs_def] p0_def p2_def rr_def C1_def C2_def C3_def .
qed

lemma eos_functions_continuous:
  assumes G: "valid_globals G" and P: "valid_parameters p1 gamma1 gamma2 gamma3"
  shows "continuous_on {0..} (\<lambda>rho. result_value (eos_p_polytropic G rho p1 gamma1 gamma2 gamma3))"
    and "continuous_on {0..} (\<lambda>p. result_value (eos_rho_polytropic G p p1 gamma1 gamma2 gamma3))"
proof -
  have "continuous_on {0..} (\<lambda>rho. result_value (eos_p_polytropic G rho p1 gamma1 gamma2 gamma3))
          \<longleftrightarrow> continuous_on {0..} (p_closed G p1 gamma1 gamma2 gamma3)"
    by (rule continuous_on_cong) (simp_all add: eos_p_polytropic_closed [OF G P] result_value_def)
  then show "continuous_on {0..}
      (\<lambda>rho. result_value (eos_p_polytropic G rho p1 gamma1 gamma2 gamma3))"
    using continuous_on_p_closed [OF G P] by simp
  have "continuous_on {0..} (\<lambda>p. result_value (eos_rho_polytropic G p p1 gamma1 gamma2 gamma3))
          \<longleftrightarrow> continuous_on {0..} (rho_closed G p1 gamma1 gamma2 gamma3)"
    by (rule continuous_on_cong) (simp_all add: eos_rho_polytropic_closed [OF G P] result_value_def)
  then show "continuous_on {0..}
      (\<lambda>p. result_value (eos_rho_polytropic G p p1 gamma1 gamma2 gamma3))"
    using continuous_on_rho_closed [OF G P] by simp
qed

text \<open>
  C3. For valid constants and parameters, with the boundary pressures \<open>p0\<close>, \<open>p2\<close> and the
  running constants \<open>C0\<close> to \<open>C3\<close> as the notebook computes them: at each of the
  densities \<open>rho0\<close>, \<open>rho1\<close>, \<open>rho2\<close> the pressure law of the segment below, the
  pressure law of the segment above and the pressure function have one value, which is
  \<open>p0\<close>, \<open>p1\<close>, \<open>p2\<close>; and at each of these pressures the energy-density law of
  the segment below, the law of the segment above and the energy-density function have
  one value. Both functions have a value at every argument that is not negative, and as
  real functions they are continuous there.
\<close>

theorem piecewise_polytrope_continuity:
  assumes G: "valid_globals G" and P: "valid_parameters p1 gamma1 gamma2 gamma3"
  shows "\<exists>p0 p2 C0 C1 C2 C3.
      boundary_p0 G p1 gamma1 = Inr p0 \<and> boundary_p2 G p1 gamma2 = Inr p2
    \<and> running_constants G p0 p1 p2 gamma1 gamma2 gamma3 = Inr (C0, C1, C2, C3)
    \<and> eos_p_polytropic G (rho0_v G) p1 gamma1 gamma2 gamma3 = Inr p0
    \<and> eos_p_polytropic G (rho1_v G) p1 gamma1 gamma2 gamma3 = Inr p1
    \<and> eos_p_polytropic G (rho2_v G) p1 gamma1 gamma2 gamma3 = Inr p2
    \<and> laws_agree (p_segments G p0 p1 p2 gamma1 gamma2 gamma3) 0 (rho0_v G)
         (\<lambda>rho. eos_p_polytropic G rho p1 gamma1 gamma2 gamma3)
    \<and> laws_agree (p_segments G p0 p1 p2 gamma1 gamma2 gamma3) 1 (rho1_v G)
         (\<lambda>rho. eos_p_polytropic G rho p1 gamma1 gamma2 gamma3)
    \<and> laws_agree (p_segments G p0 p1 p2 gamma1 gamma2 gamma3) 2 (rho2_v G)
         (\<lambda>rho. eos_p_polytropic G rho p1 gamma1 gamma2 gamma3)
    \<and> laws_agree
         (rho_segments G (\<lambda>p. eos_rho_rest_polytropic G p p1 gamma1 gamma2 gamma3)
            C0 C1 C2 C3 gamma1 gamma2 gamma3) 0 p0
         (\<lambda>p. eos_rho_polytropic G p p1 gamma1 gamma2 gamma3)
    \<and> laws_agree
         (rho_segments G (\<lambda>p. eos_rho_rest_polytropic G p p1 gamma1 gamma2 gamma3)
            C0 C1 C2 C3 gamma1 gamma2 gamma3) 1 p1
         (\<lambda>p. eos_rho_polytropic G p p1 gamma1 gamma2 gamma3)
    \<and> laws_agree
         (rho_segments G (\<lambda>p. eos_rho_rest_polytropic G p p1 gamma1 gamma2 gamma3)
            C0 C1 C2 C3 gamma1 gamma2 gamma3) 2 p2
         (\<lambda>p. eos_rho_polytropic G p p1 gamma1 gamma2 gamma3)
    \<and> (\<forall>x\<ge>0. (\<exists>v. eos_p_polytropic G x p1 gamma1 gamma2 gamma3 = Inr v)
            \<and> (\<exists>v. eos_rho_polytropic G x p1 gamma1 gamma2 gamma3 = Inr v))
    \<and> continuous_on {0..}
         (\<lambda>rho. result_value (eos_p_polytropic G rho p1 gamma1 gamma2 gamma3))
    \<and> continuous_on {0..}
         (\<lambda>p. result_value (eos_rho_polytropic G p p1 gamma1 gamma2 gamma3))"
proof -
  have g: "0 < gamma1" "0 < gamma2"
    using P by (simp_all add: valid_parameters_def)
  note bp = boundary_p0_value [OF G g(1), of p1] boundary_p2_value [OF G g(2), of p1]
  note rc = running_constants_value [OF G P]
  note ep = eos_p_at_boundaries [OF G P]
  note pl = pressure_laws_agree [OF G P refl refl]
  note el = energy_laws_agree [OF G P refl refl refl refl refl refl refl]
  note ct = eos_functions_continuous [OF G P]
  have df: "\<forall>x\<ge>0. (\<exists>v. eos_p_polytropic G x p1 gamma1 gamma2 gamma3 = Inr v)
            \<and> (\<exists>v. eos_rho_polytropic G x p1 gamma1 gamma2 gamma3 = Inr v)"
    by (simp add: eos_p_polytropic_closed [OF G P] eos_rho_polytropic_closed [OF G P])
  show ?thesis
    by (intro exI conjI) (rule bp rc ep pl el ct df)+
qed

theorem piecewise_polytrope_continuity_witness:
  "\<exists>p0 p2 C0 C1 C2 C3.
      boundary_p0 unit_globals 1 2 = Inr p0 \<and> boundary_p2 unit_globals 1 3 = Inr p2
    \<and> running_constants unit_globals p0 1 p2 2 3 2 = Inr (C0, C1, C2, C3)
    \<and> eos_p_polytropic unit_globals (rho0_v unit_globals) 1 2 3 2 = Inr p0
    \<and> eos_p_polytropic unit_globals (rho1_v unit_globals) 1 2 3 2 = Inr 1
    \<and> eos_p_polytropic unit_globals (rho2_v unit_globals) 1 2 3 2 = Inr p2
    \<and> laws_agree (p_segments unit_globals p0 1 p2 2 3 2) 0 (rho0_v unit_globals)
         (\<lambda>rho. eos_p_polytropic unit_globals rho 1 2 3 2)
    \<and> laws_agree (p_segments unit_globals p0 1 p2 2 3 2) 1 (rho1_v unit_globals)
         (\<lambda>rho. eos_p_polytropic unit_globals rho 1 2 3 2)
    \<and> laws_agree (p_segments unit_globals p0 1 p2 2 3 2) 2 (rho2_v unit_globals)
         (\<lambda>rho. eos_p_polytropic unit_globals rho 1 2 3 2)
    \<and> laws_agree
         (rho_segments unit_globals (\<lambda>p. eos_rho_rest_polytropic unit_globals p 1 2 3 2)
            C0 C1 C2 C3 2 3 2) 0 p0
         (\<lambda>p. eos_rho_polytropic unit_globals p 1 2 3 2)
    \<and> laws_agree
         (rho_segments unit_globals (\<lambda>p. eos_rho_rest_polytropic unit_globals p 1 2 3 2)
            C0 C1 C2 C3 2 3 2) 1 1
         (\<lambda>p. eos_rho_polytropic unit_globals p 1 2 3 2)
    \<and> laws_agree
         (rho_segments unit_globals (\<lambda>p. eos_rho_rest_polytropic unit_globals p 1 2 3 2)
            C0 C1 C2 C3 2 3 2) 2 p2
         (\<lambda>p. eos_rho_polytropic unit_globals p 1 2 3 2)
    \<and> (\<forall>x\<ge>0. (\<exists>v. eos_p_polytropic unit_globals x 1 2 3 2 = Inr v)
            \<and> (\<exists>v. eos_rho_polytropic unit_globals x 1 2 3 2 = Inr v))
    \<and> continuous_on {0..} (\<lambda>rho. result_value (eos_p_polytropic unit_globals rho 1 2 3 2))
    \<and> continuous_on {0..} (\<lambda>p. result_value (eos_rho_polytropic unit_globals p 1 2 3 2))"
proof -
  have "valid_globals unit_globals" and "valid_parameters 1 2 3 2"
    by (simp_all add: valid_globals_def valid_parameters_def unit_globals_def)
  then show ?thesis by (rule piecewise_polytrope_continuity)
qed

section \<open>Properties of the integration loop\<close>

lemma solve_one_step:
  "solve_tov_equations surface_in_one_step p_central eos_rho step =
     Some (Inr ([0, step], [p_central, 0], [0, p_central * (10 - p_central)]))"
  by (simp add: solve_tov_equations_def tov_loop.simps surface_in_one_step_def)

lemma tov_loop_stopped:
  assumes "\<not> ode_success integrator"
  shows "tov_loop integrate eos_rho step integrator r_path p_and_m_path =
           Some (Inr (r_path, p_and_m_path))"
  using assms by (subst tov_loop.simps) simp

lemma tov_loop_error:
  assumes "ode_success integrator"
    and "integrate (\<lambda>r p_and_m. tov_equations r p_and_m eos_rho) integrator
           (ode_t integrator + step) = Inl e"
  shows "tov_loop integrate eos_rho step integrator r_path p_and_m_path = Some (Inl e)"
  using assms by (subst tov_loop.simps) simp

lemma tov_loop_surface:
  assumes "ode_success integrator"
    and "integrate (\<lambda>r p_and_m. tov_equations r p_and_m eos_rho) integrator
           (ode_t integrator + step) = Inr integrator'"
    and "fst (ode_y integrator') \<le> 0"
  shows "tov_loop integrate eos_rho step integrator r_path p_and_m_path =
           Some (Inr (r_path @ [ode_t integrator'], p_and_m_path @ [ode_y integrator']))"
  using assms by (subst tov_loop.simps) simp

lemma tov_loop_continue:
  assumes "ode_success integrator"
    and "integrate (\<lambda>r p_and_m. tov_equations r p_and_m eos_rho) integrator
           (ode_t integrator + step) = Inr integrator'"
    and "0 < fst (ode_y integrator')"
  shows "tov_loop integrate eos_rho step integrator r_path p_and_m_path =
           tov_loop integrate eos_rho step integrator'
             (r_path @ [ode_t integrator']) (p_and_m_path @ [ode_y integrator'])"
  using assms by (subst tov_loop.simps) (simp add: Let_def)

lemma continues_tov_loop:
  assumes "continues integrate eos_rho step c c'"
  shows "tov_loop integrate eos_rho step (fst c) (fst (snd c)) (snd (snd c)) =
           tov_loop integrate eos_rho step (fst c') (fst (snd c')) (snd (snd c'))"
  using assms
proof (induction rule: continues.induct)
  case continues_start
  show ?case by simp
next
  case (continues_step integrator r_path p_and_m_path integrator')
  then show ?case by (simp add: tov_loop_continue)
qed

lemma continues_last:
  assumes "continues integrate eos_rho step c c'"
    and "snd (snd c) \<noteq> []" and "last (snd (snd c)) = ode_y (fst c)"
    and "length (fst (snd c)) = length (snd (snd c))"
  shows "snd (snd c') \<noteq> [] \<and> last (snd (snd c')) = ode_y (fst c')
         \<and> length (fst (snd c')) = length (snd (snd c'))
         \<and> length (snd (snd c)) \<le> length (snd (snd c'))
         \<and> (c' = c \<or> (0 < fst (ode_y (fst c')) \<and> length (snd (snd c)) < length (snd (snd c'))))"
  using assms
proof (induction rule: continues.induct)
  case continues_start
  then show ?case by simp
next
  case (continues_step integrator r_path p_and_m_path integrator')
  then show ?case by auto
qed

lemma solve_tov_equations_loop:
  "solve_tov_equations integrate p_central eos_rho step =
     map_option
       (\<lambda>res. and_then res (\<lambda>(r_path, p_and_m_path).
          Inr (r_path, map fst p_and_m_path, map snd p_and_m_path)))
       (tov_loop integrate eos_rho step (initial_ode p_central) [0] [(p_central, 0)])"
  by (simp add: solve_tov_equations_def initial_ode_def Let_def)

lemma solve_fails_at_second_step:
  assumes "0 < p_central" and "0 < step"
  shows "solve_tov_equations fails_at_second_step p_central eos_rho step =
     Some (Inr ([0, step, step + step], [p_central, p_central / 2, p_central / 2 / 2], [0, 1, 2]))"
  using assms
  by (simp add: solve_tov_equations_def tov_loop.simps fails_at_second_step_def)

lemma tov_loop_extends:
  assumes "tov_loop integrate eos_rho step integrator r_path p_and_m_path = Some res"
  shows "extends_paths integrate eos_rho step integrator r_path p_and_m_path res"
proof (rule tov_loop.raw_induct [where P = extends_paths, OF _ assms], goal_cases)
  case (1 tov_loop' integrate eos_rho step integrator r_path p_and_m_path res)
  show ?case
  proof (cases "ode_success integrator")
    case False
    then show ?thesis using 1(2) by (auto simp add: extends_paths_def)
  next
    case True
    show ?thesis
    proof (cases "integrate (\<lambda>r p_and_m. tov_equations r p_and_m eos_rho) integrator
                    (ode_t integrator + step)")
      case (Inl e)
      then show ?thesis using True 1(2) by (auto simp add: extends_paths_def)
    next
      case (Inr integrator')
      show ?thesis
      proof (cases "fst (ode_y integrator') \<le> 0")
        case True
        then show ?thesis
          using \<open>ode_success integrator\<close> Inr 1(2) by (auto simp add: extends_paths_def)
      next
        case False
        then have call: "tov_loop' integrate eos_rho step integrator'
                           (r_path @ [ode_t integrator']) (p_and_m_path @ [ode_y integrator'])
                           = Some res"
          using \<open>ode_success integrator\<close> Inr 1(2) by (simp add: Let_def)
        show ?thesis
          using 1(1) [OF call] by (fastforce simp add: extends_paths_def)
      qed
    qed
  qed
qed

lemma solve_profile_shape:
  assumes "solve_tov_equations integrate p_central eos_rho step = Some (Inr (rs, ps, ms))"
  shows "2 \<le> length rs \<and> length ps = length rs \<and> length ms = length rs
         \<and> hd rs = 0 \<and> hd ps = p_central \<and> hd ms = 0"
proof -
  from assms obtain res where
    res: "tov_loop integrate eos_rho step (initial_ode p_central) [0] [(p_central, 0)] = Some res"
    and cols': "and_then res (\<lambda>(r_path, p_and_m_path).
                 Inr (r_path, map fst p_and_m_path, map snd p_and_m_path)) = Inr (rs, ps, ms)"
    by (auto simp add: solve_tov_equations_loop)
  from cols' obtain pms where "res = Inr (rs, pms)" and cols: "ps = map fst pms" "ms = map snd pms"
    by (cases res) auto
  with res have
    loop: "tov_loop integrate eos_rho step (initial_ode p_central) [0] [(p_central, 0)] =
             Some (Inr (rs, pms))"
    by simp
  from tov_loop_extends [OF loop] obtain xs ys where
    "rs = [0] @ xs" "pms = [(p_central, 0)] @ ys" "length xs = length ys" "xs \<noteq> []"
    by (auto simp add: extends_paths_def initial_ode_def)
  then show ?thesis using cols by (cases xs) auto
qed

lemma solve_first_step:
  assumes "integrate (\<lambda>r p_and_m. tov_equations r p_and_m eos_rho) (initial_ode p_central)
             (0 + step) = Inr integrator'"
    and "fst (ode_y integrator') \<le> 0 \<or> \<not> ode_success integrator'"
  shows "solve_tov_equations integrate p_central eos_rho step =
           Some (Inr ([0, ode_t integrator'], [p_central, fst (ode_y integrator')],
                      [0, snd (ode_y integrator')]))"
proof (cases "fst (ode_y integrator') \<le> 0")
  case True
  have "tov_loop integrate eos_rho step (initial_ode p_central) [0] [(p_central, 0)] =
          Some (Inr ([0] @ [ode_t integrator'], [(p_central, 0)] @ [ode_y integrator']))"
    using assms(1) True by (intro tov_loop_surface) (simp_all add: initial_ode_def)
  then show ?thesis by (simp add: solve_tov_equations_loop)
next
  case False
  then have failed: "\<not> ode_success integrator'" and pos: "0 < fst (ode_y integrator')"
    using assms(2) by auto
  have "tov_loop integrate eos_rho step (initial_ode p_central) [0] [(p_central, 0)] =
          tov_loop integrate eos_rho step integrator'
            ([0] @ [ode_t integrator']) ([(p_central, 0)] @ [ode_y integrator'])"
    using assms(1) pos by (intro tov_loop_continue) (simp_all add: initial_ode_def)
  then show ?thesis using failed by (simp add: solve_tov_equations_loop tov_loop_stopped)
qed

lemma solve_first_step_error:
  assumes "integrate (\<lambda>r p_and_m. tov_equations r p_and_m eos_rho) (initial_ode p_central)
             (0 + step) = Inl e"
  shows "solve_tov_equations integrate p_central eos_rho step = Some (Inl e)"
proof -
  have "tov_loop integrate eos_rho step (initial_ode p_central) [0] [(p_central, 0)] =
          Some (Inl e)"
    using assms by (intro tov_loop_error) (simp_all add: initial_ode_def)
  then show ?thesis by (simp add: solve_tov_equations_loop)
qed

text \<open>
  C7, as amended. For every central pressure, also one that is not positive, nothing is
  checked before the integration: the first step of the integrator is taken from
  \<open>r = 0\<close>, \<open>p = p_central\<close>, \<open>m = 0\<close>. When that step reports a pressure
  \<open>\<le> 0\<close> or a failure, the function returns the profile of the two states; when it
  raises, the error is passed on; and every profile that is returned starts at the
  initial state and has at least two states.
\<close>

theorem no_check_of_central_pressure:
  "(integrate (\<lambda>r p_and_m. tov_equations r p_and_m eos_rho) (initial_ode p_central)
        (0 + step) = Inr integrator'
      \<and> (fst (ode_y integrator') \<le> 0 \<or> \<not> ode_success integrator')
    \<longrightarrow> solve_tov_equations integrate p_central eos_rho step =
          Some (Inr ([0, ode_t integrator'], [p_central, fst (ode_y integrator')],
                     [0, snd (ode_y integrator')])))
   \<and> (integrate (\<lambda>r p_and_m. tov_equations r p_and_m eos_rho) (initial_ode p_central)
        (0 + step) = Inl e
    \<longrightarrow> solve_tov_equations integrate p_central eos_rho step = Some (Inl e))
   \<and> (solve_tov_equations integrate p_central eos_rho step = Some (Inr (rs, ps, ms))
    \<longrightarrow> 2 \<le> length rs \<and> length ps = length rs \<and> length ms = length rs
        \<and> hd rs = 0 \<and> hd ps = p_central \<and> hd ms = 0)"
  using solve_first_step [of integrate eos_rho p_central step integrator']
    solve_first_step_error [of integrate eos_rho p_central step e]
    solve_profile_shape [of integrate p_central eos_rho step rs ps ms]
  by blast

theorem no_check_of_central_pressure_witness:
  "solve_tov_equations surface_in_one_step (- 2) (eos_rho_simple unit_globals) (1 / 10)
     = Some (Inr ([0, 1 / 10], [- 2, 0], [0, - 24]))
   \<and> solve_tov_equations (\<lambda>f integrator t1. Inl ZeroDivisionError) 0
        (eos_rho_simple unit_globals) (1 / 10) = Some (Inl ZeroDivisionError)
   \<and> 2 \<le> length [0, 1 / 10 :: real]"
  using no_check_of_central_pressure [of surface_in_one_step "eos_rho_simple unit_globals"
      "- 2" "1 / 10" "\<lparr> ode_t = 1 / 10, ode_y = (0, - 24), ode_success = True \<rparr>"
      ZeroDivisionError "[0, 1 / 10]" "[- 2, 0]" "[0, - 24]"]
    no_check_of_central_pressure [of "\<lambda>f integrator t1. Inl ZeroDivisionError"
      "eos_rho_simple unit_globals" 0 "1 / 10" "initial_ode 0" ZeroDivisionError "[]" "[]" "[]"]
  by (simp add: surface_in_one_step_def initial_ode_def)

text \<open>
  The claim C7 as it is written fails: with central pressure \<open>- 1\<close> and with central
  pressure 0 the function takes an integration step and returns a profile of two states,
  not an error.
\<close>

theorem no_check_of_central_pressure_counterexample:
  "(- 1 :: real) \<le> 0
   \<and> solve_tov_equations surface_in_one_step (- 1) (eos_rho_simple unit_globals) (1 / 10)
       = Some (Inr ([0, 1 / 10], [- 1, 0], [0, - 11]))
   \<and> solve_tov_equations surface_in_one_step 0 (eos_rho_simple unit_globals) (1 / 10)
       = Some (Inr ([0, 1 / 10], [0, 0], [0, 0]))"
  by (simp add: solve_one_step)

section \<open>Properties of the sweep over central densities\<close>

lemma sample_loop_exit:
  assumes "\<not> rho < stop"
  shows "sample_loop rnd integrate G eos_p eos_rho log_step stop flag rho MR_data = Some (Inr MR_data)"
  using assms by (subst sample_loop.simps) simp

lemma sample_loop_break:
  assumes "rho < stop" and "eos_p rho = Inr p_central"
    and "solve_tov_equations integrate p_central eos_rho (1 / 10) = Some (Inr (r, p, m))"
    and "last_item r = Inr R" and "last_item m = Inr m_last"
    and "MR_data \<noteq> []" and "m_last * m_in_M_sun G < fst (snd (last MR_data))"
  shows "sample_loop rnd integrate G eos_p eos_rho log_step stop True rho MR_data = Some (Inr MR_data)"
  using assms by (subst sample_loop.simps) simp

lemma sample_loop_next:
  assumes "rho < stop" and "eos_p rho = Inr p_central"
    and "solve_tov_equations integrate p_central eos_rho (1 / 10) = Some (Inr (r, p, m))"
    and "last_item r = Inr R" and "last_item m = Inr m_last"
    and "\<not> (flag \<and> MR_data \<noteq> [] \<and> m_last * m_in_M_sun G < fst (snd (last MR_data)))"
  shows "sample_loop rnd integrate G eos_p eos_rho log_step stop flag rho MR_data =
           sample_loop rnd integrate G eos_p eos_rho log_step stop flag (update_density rnd log_step rho)
             (loc_set MR_data rho (m_last * m_in_M_sun G, R))"
  using assms by (subst sample_loop.simps) (auto simp add: Let_def)

lemma loc_set_known:
  assumes "rows_computed integrate G eos_p eos_rho MR_data"
    and "star_of integrate G eos_p eos_rho key = Some row"
    and "key \<in> fst ` set MR_data"
  shows "loc_set MR_data key row = MR_data"
proof -
  have "map (\<lambda>r. if fst r = key then (key, row) else r) MR_data = map (\<lambda>r. r) MR_data"
  proof (rule map_cong [OF refl])
    fix r assume "r \<in> set MR_data"
    then have "star_of integrate G eos_p eos_rho (fst r) = Some (snd r)"
      using assms(1) by (simp add: rows_computed_def)
    then show "(if fst r = key then (key, row) else r) = r"
      using assms(2) by (cases r) auto
  qed
  then show ?thesis using assms(3) by (simp add: loc_set_def)
qed

lemma loc_set_new:
  assumes "key \<notin> fst ` set MR_data"
  shows "loc_set MR_data key row = MR_data @ [(key, row)]"
  using assms by (simp add: loc_set_def)

lemma rows_computed_loc_set:
  assumes "rows_computed integrate G eos_p eos_rho MR_data"
    and "star_of integrate G eos_p eos_rho key = Some row"
  shows "rows_computed integrate G eos_p eos_rho (loc_set MR_data key row)"
proof (cases "key \<in> fst ` set MR_data")
  case True
  then show ?thesis using assms by (simp add: loc_set_known)
next
  case False
  then show ?thesis using assms by (simp add: loc_set_new rows_computed_def)
qed

lemma last_two_ordered_append:
  assumes "MR_data = [] \<or> fst (snd (last MR_data)) \<le> fst (snd x)"
  shows "last_two_ordered (MR_data @ [x])"
proof (cases MR_data rule: rev_cases)
  case Nil
  then show ?thesis by (simp add: last_two_ordered_def)
next
  case (snoc ys y)
  then show ?thesis using assms by (auto simp add: last_two_ordered_def)
qed

lemma last_two_ordered_loc_set:
  assumes "rows_computed integrate G eos_p eos_rho MR_data"
    and "star_of integrate G eos_p eos_rho key = Some (M, R)"
    and "last_two_ordered MR_data"
    and "MR_data = [] \<or> fst (snd (last MR_data)) \<le> M"
  shows "last_two_ordered (loc_set MR_data key (M, R))"
proof (cases "key \<in> fst ` set MR_data")
  case True
  then show ?thesis using assms by (simp add: loc_set_known)
next
  case False
  then show ?thesis using assms(4) by (simp add: loc_set_new last_two_ordered_append)
qed

lemma sample_loop_invariant:
  assumes "sample_loop rnd integrate G eos_p eos_rho log_step stop flag rho MR_data = Some res"
  shows "keeps_order rnd integrate G eos_p eos_rho log_step stop flag rho MR_data res"
proof (rule sample_loop.raw_induct [where P = keeps_order, OF _ assms], goal_cases)
  case (1 sample_loop' rnd integrate G eos_p eos_rho log_step stop flag rho MR_data res)
  show ?case
    unfolding keeps_order_def
  proof (intro impI allI)
    fix out
    assume flag: flag and rc: "rows_computed integrate G eos_p eos_rho MR_data"
      and lt: "last_two_ordered MR_data" and res: "res = Inr out"
    show "last_two_ordered out"
    proof (cases "rho < stop")
      case False
      then show ?thesis using 1(2) lt res by simp
    next
      case True
      from True 1(2) res obtain p_central r p m R m_last where
        ep: "eos_p rho = Inr p_central"
        and sv: "solve_tov_equations integrate p_central eos_rho (1 / 10) = Some (Inr (r, p, m))"
        and lr: "last_item r = Inr R" and lm: "last_item m = Inr m_last"
        by (auto split: sum.splits option.splits prod.splits)
      define M where "M = m_last * m_in_M_sun G"
      have star: "star_of integrate G eos_p eos_rho rho = Some (M, R)"
        by (simp add: star_of_def ep sv lr lm M_def)
      show ?thesis
      proof (cases "length MR_data > 0 \<and> M < fst (snd (last MR_data))")
        case True
        then show ?thesis
          using 1(2) \<open>rho < stop\<close> ep sv lr lm flag lt res by (simp add: M_def Let_def)
      next
        case False
        then have ord: "MR_data = [] \<or> fst (snd (last MR_data)) \<le> M" by auto
        have call: "sample_loop' rnd integrate G eos_p eos_rho log_step stop flag
                      (update_density rnd log_step rho) (loc_set MR_data rho (M, R)) = Some res"
          using 1(2) \<open>rho < stop\<close> ep sv lr lm flag False
            by (auto simp add: M_def Let_def split: if_splits)
        show ?thesis
          using 1(1) [OF call] flag res
            rows_computed_loc_set [OF rc star] last_two_ordered_loc_set [OF rc star lt ord]
          by (simp add: keeps_order_def)
      qed
    qed
  qed
qed

text \<open>
  C4. With \<open>stop_at_maximum_mass\<close> enabled: when the data frame has at least one row
  and the mass of the star just integrated is strictly below the mass of the last row,
  the sweep stops and returns the data frame as it is, without the new row. And in every
  data frame that a sweep returns, if it has at least two rows, the mass of the last row
  is not below the mass of the row before it.
\<close>

theorem stop_at_maximum_mass_truncates:
  "(rho < stop \<and> eos_p rho = Inr p_central
      \<and> solve_tov_equations integrate p_central eos_rho (1 / 10) = Some (Inr (r, p, m))
      \<and> last_item r = Inr R \<and> last_item m = Inr m_last
      \<and> MR_data \<noteq> [] \<and> m_last * m_in_M_sun G < fst (snd (last MR_data))
    \<longrightarrow> sample_loop rnd integrate G eos_p eos_rho log_step stop True rho MR_data
          = Some (Inr MR_data))
   \<and> (sample_eos_mass_radius rnd integrate G eos_p eos_rho start log_step stop True
          = Some (Inr curve)
        \<and> curve = rows @ [a, b]
      \<longrightarrow> fst (snd a) \<le> fst (snd b))"
proof (intro conjI impI)
  assume "rho < stop \<and> eos_p rho = Inr p_central
      \<and> solve_tov_equations integrate p_central eos_rho (1 / 10) = Some (Inr (r, p, m))
      \<and> last_item r = Inr R \<and> last_item m = Inr m_last
      \<and> MR_data \<noteq> [] \<and> m_last * m_in_M_sun G < fst (snd (last MR_data))"
  then show "sample_loop rnd integrate G eos_p eos_rho log_step stop True rho MR_data
               = Some (Inr MR_data)"
    by (elim conjE) (rule sample_loop_break)
next
  assume h: "sample_eos_mass_radius rnd integrate G eos_p eos_rho start log_step stop True
               = Some (Inr curve) \<and> curve = rows @ [a, b]"
  then have "sample_loop rnd integrate G eos_p eos_rho log_step stop True start [] = Some (Inr curve)"
    by (simp add: sample_eos_mass_radius_def)
  from sample_loop_invariant [OF this] have "last_two_ordered curve"
    by (simp add: keeps_order_def rows_computed_def last_two_ordered_def)
  moreover have "curve = rows @ [a, b]" using h by simp
  ultimately show "fst (snd a) \<le> fst (snd b)"
    unfolding last_two_ordered_def by blast
qed

theorem stop_at_maximum_mass_truncates_witness:
  "sample_loop double_round surface_in_one_step unit_globals (eos_p_simple unit_globals)
       (eos_rho_simple unit_globals) 1 100 True 4 [(1, 9, 1 / 10), (2, 16, 1 / 10)]
     = Some (Inr [(1, 9, 1 / 10), (2, 16, 1 / 10)])
   \<and> sample_eos_mass_radius double_round surface_in_one_step unit_globals (eos_p_simple unit_globals)
       (eos_rho_simple unit_globals) 1 1 100 True
     = Some (Inr ([] @ [(1, 9, 1 / 10), (2, 16, 1 / 10)]))
   \<and> fst (snd (1 :: real, 9 :: real, 1 / 10 :: real))
       \<le> fst (snd (2 :: real, 16 :: real, 1 / 10 :: real))"
proof -
  have run: "sample_eos_mass_radius double_round surface_in_one_step unit_globals (eos_p_simple unit_globals)
       (eos_rho_simple unit_globals) 1 1 100 True
     = Some (Inr ([] @ [(1, 9, 1 / 10), (2, 16, 1 / 10)]))"
    by (simp add: sample_eos_mass_radius_def sample_loop.simps solve_one_step eos_p_simple_def
        unit_globals_def last_item_def loc_set_def update_density_def)
  show ?thesis
    using run
      stop_at_maximum_mass_truncates [where integrate = surface_in_one_step
        and G = unit_globals and eos_p = "eos_p_simple unit_globals"
        and eos_rho = "eos_rho_simple unit_globals" and rho = 4 and stop = 100
        and p_central = 64 and r = "[0, 1 / 10]" and p = "[64, 0]" and m = "[0, - 3456]"
        and R = "1 / 10" and m_last = "- 3456"
        and MR_data = "[(1, 9, 1 / 10), (2, 16, 1 / 10)]" and log_step = 1 and start = 1
        and curve = "[] @ [(1, 9, 1 / 10), (2, 16, 1 / 10)]" and rows = "[]"
        and a = "(1, 9, 1 / 10)" and b = "(2, 16, 1 / 10)"]
    by (simp add: solve_one_step eos_p_simple_def unit_globals_def last_item_def)
qed

text \<open>
  C8. When \<open>rho_central_stop \<le> rho_central_start\<close> the sweep returns the empty data
  frame and no error, whatever the integrator and the equation of state are: no
  iteration is made.
\<close>

theorem empty_range_gives_empty_curve:
  assumes "rho_central_stop \<le> rho_central_start"
  shows "sample_eos_mass_radius rnd integrate G eos_p eos_rho rho_central_start rho_central_log_step
           rho_central_stop stop_at_maximum_mass = Some (Inr [])"
  using assms by (simp add: sample_eos_mass_radius_def sample_loop_exit)

theorem empty_range_gives_empty_curve_witness:
  "sample_eos_mass_radius double_round surface_in_one_step unit_globals
     (\<lambda>rho. Inl ZeroDivisionError) (eos_rho_simple unit_globals) 2 (1 / 20) 1 True
     = Some (Inr [])
   \<and> sample_eos_mass_radius double_round surface_in_one_step unit_globals
     (\<lambda>rho. Inl ZeroDivisionError) (eos_rho_simple unit_globals) 2 (1 / 20) 2 False
     = Some (Inr [])"
  using empty_range_gives_empty_curve [where rnd = double_round
      and integrate = surface_in_one_step and G = unit_globals
      and eos_p = "\<lambda>rho. Inl ZeroDivisionError" and eos_rho = "eos_rho_simple unit_globals"
      and rho_central_start = 2 and rho_central_log_step = "1 / 20" and rho_central_stop = 1
      and stop_at_maximum_mass = True]
    empty_range_gives_empty_curve [where rnd = double_round
      and integrate = surface_in_one_step and G = unit_globals
      and eos_p = "\<lambda>rho. Inl ZeroDivisionError" and eos_rho = "eos_rho_simple unit_globals"
      and rho_central_start = 2 and rho_central_log_step = "1 / 20" and rho_central_stop = 2
      and stop_at_maximum_mass = False]
  by simp

subsection \<open>A star whose integration failed\<close>

text \<open>
  C6, as amended. When the loop, started by \<open>solve_tov_equations\<close>, goes on through
  steps with positive pressure and comes to an integrator that reports failure, the
  function returns, without an error, the three columns of the path accumulated so far,
  the state of the failed step included, and no completion flag. The path has at least
  two states and its last pressure is positive. The sweep, which integrates with the step
  0.1, does not look for the failure and goes on with such a star as with any other: when
  the break of \<open>stop_at_maximum_mass\<close> applies to the last mass of the partial profile it
  returns the data frame as it is, and otherwise it stores the row made of the central
  density, of the last mass in solar masses and of the last radius of the partial profile,
  and goes on with the next central density.
\<close>

theorem solver_failure_returns_partial_profile:
  assumes run: "continues integrate eos_rho step (initial_ode p_central, [0], [(p_central, 0)])
                  (integrator, r_path, p_and_m_path)"
    and failed: "\<not> ode_success integrator"
  shows "solve_tov_equations integrate p_central eos_rho step =
           Some (Inr (r_path, map fst p_and_m_path, map snd p_and_m_path))
         \<and> 2 \<le> length r_path \<and> length p_and_m_path = length r_path
         \<and> 0 < fst (last p_and_m_path)
         \<and> (step = 1 / 10 \<and> rho < stop \<and> eos_p rho = Inr p_central
              \<and> MR_data \<noteq> []
              \<and> snd (last p_and_m_path) * m_in_M_sun G < fst (snd (last MR_data))
            \<longrightarrow> sample_loop rnd integrate G eos_p eos_rho log_step stop True rho MR_data
                  = Some (Inr MR_data))
         \<and> (step = 1 / 10 \<and> rho < stop \<and> eos_p rho = Inr p_central
              \<and> \<not> (flag \<and> MR_data \<noteq> []
                     \<and> snd (last p_and_m_path) * m_in_M_sun G < fst (snd (last MR_data)))
            \<longrightarrow> sample_loop rnd integrate G eos_p eos_rho log_step stop flag rho MR_data
                  = sample_loop rnd integrate G eos_p eos_rho log_step stop flag
                      (update_density rnd log_step rho)
                      (loc_set MR_data rho
                         (snd (last p_and_m_path) * m_in_M_sun G, last r_path)))"
proof -
  have loop: "tov_loop integrate eos_rho step (initial_ode p_central) [0] [(p_central, 0)] =
                Some (Inr (r_path, p_and_m_path))"
    using continues_tov_loop [OF run] failed by (simp add: tov_loop_stopped)
  have "integrator \<noteq> initial_ode p_central"
    using failed by (auto simp add: initial_ode_def)
  then have shape: "solve_tov_equations integrate p_central eos_rho step =
           Some (Inr (r_path, map fst p_and_m_path, map snd p_and_m_path))
         \<and> 2 \<le> length r_path \<and> length p_and_m_path = length r_path
         \<and> 0 < fst (last p_and_m_path)"
    using continues_last [OF run] loop
    by (auto simp add: solve_tov_equations_loop initial_ode_def)
  then have ne: "r_path \<noteq> []" "p_and_m_path \<noteq> []" by auto
  have lr: "last_item r_path = Inr (last r_path)" using ne by (simp add: last_item_def)
  have lm: "last_item (map snd p_and_m_path) = Inr (snd (last p_and_m_path))"
    using ne by (simp add: last_item_def last_map)
  have sol: "solve_tov_equations integrate p_central eos_rho (1 / 10) =
        Some (Inr (r_path, map fst p_and_m_path, map snd p_and_m_path))"
    if "step = 1 / 10"
    using shape that by simp
  have brk: "sample_loop rnd integrate G eos_p eos_rho log_step stop True rho MR_data
                  = Some (Inr MR_data)"
    if "step = 1 / 10" and "rho < stop" and "eos_p rho = Inr p_central" and "MR_data \<noteq> []"
      and "snd (last p_and_m_path) * m_in_M_sun G < fst (snd (last MR_data))"
    using that(2,3) sol [OF that(1)] lr lm that(4,5) by (rule sample_loop_break)
  have nxt: "sample_loop rnd integrate G eos_p eos_rho log_step stop flag rho MR_data
                  = sample_loop rnd integrate G eos_p eos_rho log_step stop flag
                      (update_density rnd log_step rho)
                      (loc_set MR_data rho
                         (snd (last p_and_m_path) * m_in_M_sun G, last r_path))"
    if "step = 1 / 10" and "rho < stop" and "eos_p rho = Inr p_central"
      and "\<not> (flag \<and> MR_data \<noteq> []
               \<and> snd (last p_and_m_path) * m_in_M_sun G < fst (snd (last MR_data)))"
    using that(2,3) sol [OF that(1)] lr lm that(4) by (rule sample_loop_next)
  show ?thesis using shape brk nxt by blast
qed

theorem solver_failure_returns_partial_profile_witness:
  "solve_tov_equations fails_at_second_step 1 (eos_rho_simple unit_globals) (1 / 10) =
     Some (Inr ([0, 1 / 10, 1 / 5], [1, 1 / 2, 1 / 4], [0, 1, 2]))
   \<and> sample_loop double_round fails_at_second_step unit_globals (eos_p_simple unit_globals)
       (eos_rho_simple unit_globals) 1 3 True 1 [(1 / 2, 5, 1 / 5)]
     = Some (Inr [(1 / 2, 5, 1 / 5)])
   \<and> sample_loop double_round fails_at_second_step unit_globals (eos_p_simple unit_globals)
       (eos_rho_simple unit_globals) 1 3 False 1 []
     = sample_loop double_round fails_at_second_step unit_globals (eos_p_simple unit_globals)
         (eos_rho_simple unit_globals) 1 3 False 2 [(1, 2, 1 / 5)]"
proof -
  let ?s1 = "\<lparr> ode_t = 1 / 10, ode_y = (1 / 2, 1), ode_success = True \<rparr>"
  let ?s2 = "\<lparr> ode_t = 1 / 5, ode_y = (1 / 4, 2), ode_success = False \<rparr>"
  have "continues fails_at_second_step (eos_rho_simple unit_globals) (1 / 10)
          (initial_ode 1, [0], [(1, 0)]) (?s1, [0] @ [ode_t ?s1], [(1, 0)] @ [ode_y ?s1])"
    by (rule continues_step [OF continues_start])
      (simp_all add: initial_ode_def fails_at_second_step_def)
  then have run: "continues fails_at_second_step (eos_rho_simple unit_globals) (1 / 10)
          (initial_ode 1, [0], [(1, 0)])
          (?s2, ([0] @ [ode_t ?s1]) @ [ode_t ?s2], ([(1, 0)] @ [ode_y ?s1]) @ [ode_y ?s2])"
    by (rule continues_step) (simp_all add: fails_at_second_step_def)
  show ?thesis
    using
      solver_failure_returns_partial_profile [OF run, where rnd = double_round
        and G = unit_globals and eos_p = "eos_p_simple unit_globals" and rho = 1 and stop = 3
        and log_step = 1 and MR_data = "[(1 / 2, 5, 1 / 5)]" and flag = True]
      solver_failure_returns_partial_profile [OF run, where rnd = double_round
        and G = unit_globals and eos_p = "eos_p_simple unit_globals" and rho = 1 and stop = 3
        and log_step = 1 and MR_data = "[]" and flag = False]
    by (simp add: eos_p_simple_def unit_globals_def loc_set_def update_density_def)
qed

text \<open>
  The claim C6 as it is written fails: after a failed step the value returned is the
  three columns, with no completion flag, and the sweep records the mass and the radius
  of the failed star as a row like any other.
\<close>

theorem failed_star_counterexample:
  "solve_tov_equations fails_at_second_step 1 (eos_rho_simple unit_globals) (1 / 10) =
     Some (Inr ([0, 1 / 10, 1 / 5], [1, 1 / 2, 1 / 4], [0, 1, 2]))
   \<and> sample_eos_mass_radius double_round fails_at_second_step unit_globals (eos_p_simple unit_globals)
       (eos_rho_simple unit_globals) 1 1 3 False = Some (Inr [(1, 2, 1 / 5), (2, 2, 1 / 5)])"
  by (simp add: sample_eos_mass_radius_def sample_loop.simps solve_fails_at_second_step
      eos_p_simple_def unit_globals_def last_item_def loc_set_def update_density_def)

subsection \<open>Growth under a relative rounding error\<close>

lemma rounded_lower:
  assumes "\<forall>x. \<bar>rnd x - x\<bar> \<le> u * \<bar>x\<bar>" and "0 \<le> (y::real)"
  shows "y * (1 - u) \<le> rnd y"
proof -
  have "\<bar>rnd y - y\<bar> \<le> u * \<bar>y\<bar>" using assms(1) by blast
  then have "y - u * y \<le> rnd y" using assms(2) by (simp add: abs_le_iff)
  then show ?thesis by (simp add: algebra_simps)
qed

lemma update_density_grows:
  assumes err: "\<forall>x. \<bar>rnd x - x\<bar> \<le> u * \<bar>x\<bar>" and u: "0 \<le> u" and u1: "u < 1"
    and step: "0 < log_step" and q: "1 < (1 + log_step * (1 - u)) * (1 - u)"
    and rho: "0 < rho"
  shows "rho * ((1 + log_step * (1 - u)) * (1 - u)) \<le> update_density rnd log_step rho"
proof -
  have "0 \<le> rho * log_step" using rho step by simp
  from rounded_lower [OF err this]
  have t: "rho * log_step * (1 - u) \<le> rnd (rho * log_step)" .
  have "0 \<le> rho * log_step * (1 - u)" using rho step u1 by simp
  then have z0: "0 \<le> rho + rnd (rho * log_step)" using t rho by linarith
  from rounded_lower [OF err z0]
  have "(rho + rnd (rho * log_step)) * (1 - u) \<le> update_density rnd log_step rho"
    by (simp add: update_density_def)
  moreover have "(rho + rho * log_step * (1 - u)) * (1 - u)
      \<le> (rho + rnd (rho * log_step)) * (1 - u)"
    using t u1 by (intro mult_right_mono) simp_all
  moreover have "rho * ((1 + log_step * (1 - u)) * (1 - u))
      = (rho + rho * log_step * (1 - u)) * (1 - u)"
    by (simp add: algebra_simps)
  ultimately show ?thesis by linarith
qed

lemma iterates_grow:
  assumes err: "\<forall>x. \<bar>rnd x - x\<bar> \<le> u * \<bar>x\<bar>" and u: "0 \<le> u" and u1: "u < 1"
    and step: "0 < log_step" and q: "1 < (1 + log_step * (1 - u)) * (1 - u)"
    and start: "0 < start"
  shows "start * ((1 + log_step * (1 - u)) * (1 - u)) ^ n
           \<le> (update_density rnd log_step ^^ n) start"
proof (induction n)
  case 0
  show ?case by simp
next
  case (Suc n)
  define q where "q = (1 + log_step * (1 - u)) * (1 - u)"
  define x where "x = (update_density rnd log_step ^^ n) start"
  have q1: "1 < q" using q by (simp add: q_def)
  have "0 < start * q ^ n" using start q1 by simp
  then have xpos: "0 < x" using Suc.IH by (simp add: x_def q_def)
  have "start * q ^ Suc n = (start * q ^ n) * q" by simp
  also have "\<dots> \<le> x * q"
    using Suc.IH q1 by (intro mult_right_mono) (simp_all add: x_def q_def)
  also have "\<dots> \<le> update_density rnd log_step x"
    unfolding q_def by (rule update_density_grows [OF err u u1 step q xpos])
  finally show ?case by (simp add: x_def q_def)
qed

lemma condition_becomes_false:
  assumes err: "\<forall>x. \<bar>rnd x - x\<bar> \<le> u * \<bar>x\<bar>" and u: "0 \<le> u" and u1: "u < 1"
    and step: "0 < log_step" and q: "1 < (1 + log_step * (1 - u)) * (1 - u)"
    and start: "0 < start"
  shows "\<exists>n. \<not> (update_density rnd log_step ^^ n) start < stop"
proof -
  obtain n where "stop / start < ((1 + log_step * (1 - u)) * (1 - u)) ^ n"
    using real_arch_pow [OF q] by blast
  then have "stop < start * ((1 + log_step * (1 - u)) * (1 - u)) ^ n"
    using start by (simp add: field_simps)
  with iterates_grow [OF assms, of n] have "stop < (update_density rnd log_step ^^ n) start"
    by linarith
  then show ?thesis by (intro exI [of _ n]) simp
qed

subsection \<open>The sweep returns when its integrations return\<close>

lemma sweep_reaches_sample_loop:
  assumes "sweep_reaches rnd integrate G eos_p eos_rho log_step stop flag c c'"
  shows "sample_loop rnd integrate G eos_p eos_rho log_step stop flag (fst c) (snd c) =
           sample_loop rnd integrate G eos_p eos_rho log_step stop flag (fst c') (snd c')"
  using assms
proof (induction rule: sweep_reaches.induct)
  case sweep_start
  show ?case by simp
next
  case (sweep_step rho MR_data p_central r p m R m_last)
  then show ?case by (simp add: sample_loop_next)
qed

lemma sample_loop_returns:
  assumes body: "\<And>rho MR_data p_central.
      sweep_reaches rnd integrate G eos_p eos_rho log_step stop flag c (rho, MR_data) \<Longrightarrow>
      rho < stop \<Longrightarrow> eos_p rho = Inr p_central \<Longrightarrow>
      solve_tov_equations integrate p_central eos_rho (1 / 10) \<noteq> None"
  shows "sweep_reaches rnd integrate G eos_p eos_rho log_step stop flag c (rho, MR_data) \<Longrightarrow>
         \<not> (update_density rnd log_step ^^ n) rho < stop \<Longrightarrow>
         \<exists>res. sample_loop rnd integrate G eos_p eos_rho log_step stop flag rho MR_data = Some res"
proof (induction n arbitrary: rho MR_data)
  case 0
  then show ?case by (simp add: sample_loop_exit)
next
  case (Suc n)
  show ?case
  proof (cases "rho < stop")
    case False
    then show ?thesis by (simp add: sample_loop_exit)
  next
    case True
    have far: "\<not> (update_density rnd log_step ^^ n) (update_density rnd log_step rho) < stop"
      using Suc.prems(2) by (simp add: funpow_swap1)
    show ?thesis
    proof (cases "eos_p rho")
      case (Inl e)
      then show ?thesis using True by (subst sample_loop.simps) simp
    next
      case (Inr p_central)
      from body [OF Suc.prems(1) True Inr] obtain sol where
        sol: "solve_tov_equations integrate p_central eos_rho (1 / 10) = Some sol" by auto
      show ?thesis
      proof (cases sol)
        case (Inl e)
        then show ?thesis using True Inr sol by (subst sample_loop.simps) simp
      next
        case sr: (Inr prof)
        obtain r p m where prof: "prof = (r, p, m)" by (cases prof)
        show ?thesis
        proof (cases "last_item r")
          case (Inl e)
          then show ?thesis using True Inr sol sr prof by (subst sample_loop.simps) simp
        next
          case lr: (Inr R)
          show ?thesis
          proof (cases "last_item m")
            case (Inl e)
            then show ?thesis using True Inr sol sr prof lr by (subst sample_loop.simps) simp
          next
            case lm: (Inr m_last)
            show ?thesis
            proof (cases "flag \<and> MR_data \<noteq> []
                            \<and> m_last * m_in_M_sun G < fst (snd (last MR_data))")
              case True
              then show ?thesis
                using \<open>rho < stop\<close> Inr sol sr prof lr lm by (subst sample_loop.simps) simp
            next
              case False
              have reach: "sweep_reaches rnd integrate G eos_p eos_rho log_step stop flag c
                  (update_density rnd log_step rho,
                   loc_set MR_data rho (m_last * m_in_M_sun G, R))"
                using Suc.prems(1) True Inr sol [unfolded sr prof] lr lm False
                by (rule sweep_step)
              have "sample_loop rnd integrate G eos_p eos_rho log_step stop flag rho MR_data =
                  sample_loop rnd integrate G eos_p eos_rho log_step stop flag
                    (update_density rnd log_step rho)
                    (loc_set MR_data rho (m_last * m_in_M_sun G, R))"
                using True Inr sol [unfolded sr prof] lr lm False by (rule sample_loop_next)
              then show ?thesis using Suc.IH [OF reach far] by simp
            qed
          qed
        qed
      qed
    qed
  qed
qed

lemma sample_loop_needs_integration:
  assumes "sample_loop rnd integrate G eos_p eos_rho log_step stop flag rho MR_data = Some res"
    and "rho < stop" and "eos_p rho = Inr p_central"
  shows "solve_tov_equations integrate p_central eos_rho (1 / 10) \<noteq> None"
proof
  assume "solve_tov_equations integrate p_central eos_rho (1 / 10) = None"
  then have "sample_loop rnd integrate G eos_p eos_rho log_step stop flag rho MR_data = None"
    using assms(2,3) by (subst sample_loop.simps) simp
  with assms(1) show False by simp
qed

lemma sweep_returns_iff:
  assumes "\<exists>n. \<not> (update_density rnd log_step ^^ n) start < stop"
  shows "(\<exists>res. sample_eos_mass_radius rnd integrate G eos_p eos_rho start log_step stop flag
                  = Some res)
     \<longleftrightarrow> (\<forall>rho MR_data p_central.
            sweep_reaches rnd integrate G eos_p eos_rho log_step stop flag (start, [])
              (rho, MR_data)
            \<and> rho < stop \<and> eos_p rho = Inr p_central
          \<longrightarrow> solve_tov_equations integrate p_central eos_rho (1 / 10) \<noteq> None)"
proof
  assume "\<exists>res. sample_eos_mass_radius rnd integrate G eos_p eos_rho start log_step stop flag
                  = Some res"
  then obtain res where
    res: "sample_loop rnd integrate G eos_p eos_rho log_step stop flag start [] = Some res"
    by (auto simp add: sample_eos_mass_radius_def)
  show "\<forall>rho MR_data p_central.
            sweep_reaches rnd integrate G eos_p eos_rho log_step stop flag (start, [])
              (rho, MR_data)
            \<and> rho < stop \<and> eos_p rho = Inr p_central
          \<longrightarrow> solve_tov_equations integrate p_central eos_rho (1 / 10) \<noteq> None"
  proof (intro allI impI, elim conjE)
    fix rho MR_data p_central
    assume reach: "sweep_reaches rnd integrate G eos_p eos_rho log_step stop flag (start, [])
              (rho, MR_data)"
      and lt: "rho < stop" and ep: "eos_p rho = Inr p_central"
    have "sample_loop rnd integrate G eos_p eos_rho log_step stop flag rho MR_data = Some res"
      using sweep_reaches_sample_loop [OF reach] res by simp
    then show "solve_tov_equations integrate p_central eos_rho (1 / 10) \<noteq> None"
      using lt ep by (rule sample_loop_needs_integration)
  qed
next
  assume body: "\<forall>rho MR_data p_central.
            sweep_reaches rnd integrate G eos_p eos_rho log_step stop flag (start, [])
              (rho, MR_data)
            \<and> rho < stop \<and> eos_p rho = Inr p_central
          \<longrightarrow> solve_tov_equations integrate p_central eos_rho (1 / 10) \<noteq> None"
  from assms obtain n where n: "\<not> (update_density rnd log_step ^^ n) start < stop" ..
  have "\<exists>res. sample_loop rnd integrate G eos_p eos_rho log_step stop flag start [] = Some res"
  proof (rule sample_loop_returns [where c = "(start, [])" and n = n])
    show "sweep_reaches rnd integrate G eos_p eos_rho log_step stop flag (start, []) (start, [])"
      by (rule sweep_start)
    show "\<not> (update_density rnd log_step ^^ n) start < stop" by (rule n)
  qed (use body in blast)
  then show "\<exists>res. sample_eos_mass_radius rnd integrate G eos_p eos_rho start log_step stop flag
                  = Some res"
    by (simp add: sample_eos_mass_radius_def)
qed

subsection \<open>Steps that are not positive\<close>

lemma rounding_between:
  assumes "rounding rnd" and "rnd a = a" and "rnd b = b" and "a \<le> y" and "y \<le> b"
  shows "a \<le> rnd y \<and> rnd y \<le> b"
proof -
  have mono: "\<And>x y. x \<le> y \<Longrightarrow> rnd x \<le> rnd y" using assms(1) by (simp add: rounding_def)
  from mono [OF assms(4)] mono [OF assms(5)] show ?thesis using assms(2,3) by simp
qed

lemma rounding_fixed:
  assumes "rounding rnd" and "rnd x = x"
  shows "rnd (- x) = - x" and "rnd (2 * x) = 2 * x" and "rnd (- (2 * x)) = - (2 * x)"
    and "rnd 0 = 0"
  using assms by (simp_all add: rounding_def)

lemma update_density_fixed:
  assumes "rounding rnd"
  shows "rnd (update_density rnd log_step rho) = update_density rnd log_step rho"
  using assms by (simp add: rounding_def update_density_def)

lemma update_density_of_nonneg:
  assumes R: "rounding rnd" and fx: "rnd x = x" and s: "- 2 \<le> log_step" "log_step \<le> 0"
    and x: "0 \<le> x"
  shows "- x \<le> update_density rnd log_step x" and "update_density rnd log_step x \<le> x"
proof -
  note f = rounding_fixed [OF R fx]
  have "- (2 * x) \<le> x * log_step"
    using mult_left_mono [OF s(1) x] by simp
  moreover have "x * log_step \<le> 0" using x s(2) by (simp add: mult_nonneg_nonpos)
  ultimately have t: "- (2 * x) \<le> rnd (x * log_step) \<and> rnd (x * log_step) \<le> 0"
    by (intro rounding_between [OF R f(3) f(4)])
  then have "- x \<le> x + rnd (x * log_step)" and "x + rnd (x * log_step) \<le> x" by simp_all
  then have "- x \<le> rnd (x + rnd (x * log_step)) \<and> rnd (x + rnd (x * log_step)) \<le> x"
    by (intro rounding_between [OF R f(1) fx])
  then show "- x \<le> update_density rnd log_step x" and "update_density rnd log_step x \<le> x"
    by (simp_all add: update_density_def)
qed

lemma update_density_of_nonpos:
  assumes R: "rounding rnd" and fx: "rnd x = x" and s: "- 2 \<le> log_step" "log_step \<le> 0"
    and x: "x \<le> 0"
  shows "x \<le> update_density rnd log_step x" and "update_density rnd log_step x \<le> - x"
    and "- 1 \<le> log_step \<Longrightarrow> update_density rnd log_step x \<le> 0"
    and "log_step \<le> - 1 \<Longrightarrow> 0 \<le> update_density rnd log_step x"
proof -
  note f = rounding_fixed [OF R fx]
  have fn: "rnd (2 * (- x)) = 2 * (- x)" using rounding_fixed(2) [OF R f(1)] .
  have nx: "0 \<le> - x" using x by simp
  have lo: "0 \<le> x * log_step" using x s(2) by (simp add: mult_nonpos_nonpos)
  have hi: "x * log_step \<le> 2 * (- x)" using mult_left_mono [OF s(1) nx] by simp
  have t: "0 \<le> rnd (x * log_step) \<and> rnd (x * log_step) \<le> 2 * (- x)"
    using lo hi by (intro rounding_between [OF R f(4) fn])
  then have "x \<le> x + rnd (x * log_step)" and "x + rnd (x * log_step) \<le> - x" by simp_all
  then have "x \<le> rnd (x + rnd (x * log_step)) \<and> rnd (x + rnd (x * log_step)) \<le> - x"
    by (intro rounding_between [OF R fx f(1)])
  then show "x \<le> update_density rnd log_step x" and "update_density rnd log_step x \<le> - x"
    by (simp_all add: update_density_def)
  show "update_density rnd log_step x \<le> 0" if "- 1 \<le> log_step"
  proof -
    have "x * log_step \<le> - x" using mult_left_mono [OF that nx] by simp
    then have "0 \<le> rnd (x * log_step) \<and> rnd (x * log_step) \<le> - x"
      using lo by (intro rounding_between [OF R f(4) f(1)])
    then have "x \<le> x + rnd (x * log_step)" and "x + rnd (x * log_step) \<le> 0" by simp_all
    then have "x \<le> rnd (x + rnd (x * log_step)) \<and> rnd (x + rnd (x * log_step)) \<le> 0"
      by (intro rounding_between [OF R fx f(4)])
    then show ?thesis by (simp add: update_density_def)
  qed
  show "0 \<le> update_density rnd log_step x" if "log_step \<le> - 1"
  proof -
    have "- x \<le> x * log_step" using mult_left_mono_neg [OF that x] by simp
    then have "- x \<le> rnd (x * log_step) \<and> rnd (x * log_step) \<le> 2 * (- x)"
      using hi by (intro rounding_between [OF R f(1) fn])
    then have "0 \<le> x + rnd (x * log_step)" and "x + rnd (x * log_step) \<le> - x" by simp_all
    then have "0 \<le> rnd (x + rnd (x * log_step)) \<and> rnd (x + rnd (x * log_step)) \<le> - x"
      by (intro rounding_between [OF R f(4) f(1)])
    then show ?thesis by (simp add: update_density_def)
  qed
qed

lemma update_density_shrinks:
  assumes R: "rounding rnd" and fx: "rnd x = x" and s: "- 2 \<le> log_step" "log_step \<le> 0"
  shows "\<bar>update_density rnd log_step x\<bar> \<le> \<bar>x\<bar>"
proof (cases "0 \<le> x")
  case True
  then show ?thesis using update_density_of_nonneg [OF R fx s True] by (simp add: abs_le_iff)
next
  case False
  then have x: "x \<le> 0" by simp
  then show ?thesis using update_density_of_nonpos(1,2) [OF R fx s x] by (simp add: abs_le_iff)
qed

lemma iterates_shrink:
  assumes R: "rounding rnd" and fx: "rnd x = x" and s: "- 2 \<le> log_step" "log_step \<le> 0"
  shows "rnd ((update_density rnd log_step ^^ n) x) = (update_density rnd log_step ^^ n) x
         \<and> \<bar>(update_density rnd log_step ^^ n) x\<bar> \<le> \<bar>x\<bar>"
proof (induction n)
  case 0
  show ?case using fx by simp
next
  case (Suc n)
  then have f: "rnd ((update_density rnd log_step ^^ n) x) = (update_density rnd log_step ^^ n) x"
    and a: "\<bar>(update_density rnd log_step ^^ n) x\<bar> \<le> \<bar>x\<bar>" by simp_all
  show ?case
    using update_density_shrinks [OF R f s] a update_density_fixed [OF R] by simp
qed

lemma iterates_stay_nonpos:
  assumes R: "rounding rnd" and fx: "rnd x = x" and s: "- 1 \<le> log_step" "log_step \<le> 0"
    and x: "x \<le> 0"
  shows "(update_density rnd log_step ^^ n) x \<le> 0"
proof (induction n)
  case 0
  show ?case using x by simp
next
  case (Suc n)
  have s2: "- 2 \<le> log_step" using s(1) by simp
  have f: "rnd ((update_density rnd log_step ^^ n) x) = (update_density rnd log_step ^^ n) x"
    using iterates_shrink [OF R fx s2 s(2)] by simp
  show ?case using update_density_of_nonpos(3) [OF R f s2 s(2) Suc.IH s(1)] by simp
qed

lemma condition_stays_true:
  assumes R: "rounding rnd" and fx: "rnd start = start" and s: "log_step \<le> 0"
    and lt: "start < stop"
    and c: "log_step = 0 \<or> start = 0
            \<or> (- 2 \<le> log_step \<and> 0 < stop
               \<and> (0 \<le> start \<or> - 1 \<le> log_step \<or> update_density rnd log_step start < stop))"
  shows "(update_density rnd log_step ^^ n) start < stop"
proof -
  consider (zero_step) "log_step = 0" | (zero_start) "start = 0"
    | (pos) "- 2 \<le> log_step" "0 < stop" "0 \<le> start"
    | (keep) "- 2 \<le> log_step" "0 < stop" "start < 0" "- 1 \<le> log_step"
    | (flip) "- 2 \<le> log_step" "0 < stop" "start < 0" "log_step < - 1"
        "update_density rnd log_step start < stop"
    using c by fastforce
  then show ?thesis
  proof cases
    case zero_step
    have z: "rnd 0 = 0" using R by (simp add: rounding_def)
    have "(update_density rnd log_step ^^ n) start = start"
      by (induction n) (simp_all add: update_density_def zero_step z fx)
    then show ?thesis using lt by simp
  next
    case zero_start
    have z: "rnd 0 = 0" using R by (simp add: rounding_def)
    have "(update_density rnd log_step ^^ n) start = 0"
      by (induction n) (simp_all add: update_density_def zero_start z)
    then show ?thesis using lt zero_start by simp
  next
    case pos
    have "\<bar>(update_density rnd log_step ^^ n) start\<bar> \<le> \<bar>start\<bar>"
      using iterates_shrink [OF R fx pos(1) s] by simp
    then show ?thesis using pos(3) lt by linarith
  next
    case keep
    have "(update_density rnd log_step ^^ n) start \<le> 0"
      using keep by (intro iterates_stay_nonpos [OF R fx _ s]) simp_all
    then show ?thesis using keep(2) by linarith
  next
    case flip
    show ?thesis
    proof (cases n)
      case 0
      then show ?thesis using lt by simp
    next
      case (Suc k)
      define y where "y = update_density rnd log_step start"
      have fy: "rnd y = y" unfolding y_def by (rule update_density_fixed [OF R])
      have y0: "0 \<le> y"
        unfolding y_def using flip by (intro update_density_of_nonpos(4) [OF R fx _ s]) simp_all
      have "\<bar>(update_density rnd log_step ^^ k) y\<bar> \<le> \<bar>y\<bar>"
        using iterates_shrink [OF R fy flip(1) s] by simp
      then have "(update_density rnd log_step ^^ k) y < stop"
        using y0 flip(5) by (simp add: y_def)
      then show ?thesis by (simp add: Suc y_def funpow_swap1)
    qed
  qed
qed

subsection \<open>A loop whose condition stays true\<close>

lemma sample_loop_never_leaves:
  assumes "sample_loop rnd integrate G eos_p eos_rho log_step stop flag rho MR_data = Some res"
  shows "never_leaves rnd integrate G eos_p eos_rho log_step stop flag rho MR_data res"
proof (rule sample_loop.raw_induct [where P = never_leaves, OF _ assms], goal_cases)
  case (1 sample_loop' rnd integrate G eos_p eos_rho log_step stop flag rho MR_data res)
  show ?case
    unfolding never_leaves_def
  proof (intro impI allI notI)
    fix out
    assume h: "\<not> flag \<and> (\<forall>n. (update_density rnd log_step ^^ n) rho < stop)"
      and res: "res = Inr out"
    from h have lt: "rho < stop" by (metis funpow_0)
    have nx: "\<forall>n. (update_density rnd log_step ^^ n) (update_density rnd log_step rho) < stop"
    proof
      fix n
      have "(update_density rnd log_step ^^ Suc n) rho < stop" using h by blast
      then show "(update_density rnd log_step ^^ n) (update_density rnd log_step rho) < stop"
        by (simp add: funpow_swap1)
    qed
    from lt 1(2) res h obtain data where
      call: "sample_loop' rnd integrate G eos_p eos_rho log_step stop flag
               (update_density rnd log_step rho) data = Some res"
      by (auto simp add: Let_def split: sum.splits option.splits prod.splits)
    show False
      using 1(1) [OF call] h nx res by (simp add: never_leaves_def)
  qed
qed

lemma sample_loop_never_returns:
  assumes "sample_loop rnd integrate G eos_p eos_rho log_step stop flag rho MR_data = Some res"
  shows "never_returns rnd integrate G eos_p eos_rho log_step stop flag rho MR_data res"
proof (rule sample_loop.raw_induct [where P = never_returns, OF _ assms], goal_cases)
  case (1 sample_loop' rnd integrate G eos_p eos_rho log_step stop flag rho MR_data res)
  show ?case
    unfolding never_returns_def
  proof
    assume h: "\<not> flag \<and> (\<forall>n. (update_density rnd log_step ^^ n) rho < stop)
        \<and> (\<forall>n. star_of integrate G eos_p eos_rho ((update_density rnd log_step ^^ n) rho) \<noteq> None)"
    from h have lt: "rho < stop" by (metis funpow_0)
    from h have "star_of integrate G eos_p eos_rho rho \<noteq> None" by (metis funpow_0)
    then obtain p_central r p m R m_last where
      ep: "eos_p rho = Inr p_central"
      and sv: "solve_tov_equations integrate p_central eos_rho (1 / 10) = Some (Inr (r, p, m))"
      and lr: "last_item r = Inr R" and lm: "last_item m = Inr m_last"
      by (auto simp add: star_of_def split: sum.splits option.splits prod.splits)
    have nx: "(\<forall>n. (update_density rnd log_step ^^ n) (update_density rnd log_step rho) < stop)
        \<and> (\<forall>n. star_of integrate G eos_p eos_rho
                 ((update_density rnd log_step ^^ n) (update_density rnd log_step rho)) \<noteq> None)"
    proof (intro conjI allI)
      fix n
      have "(update_density rnd log_step ^^ Suc n) rho < stop" using h by blast
      then show "(update_density rnd log_step ^^ n) (update_density rnd log_step rho) < stop"
        by (simp add: funpow_swap1)
      have "star_of integrate G eos_p eos_rho ((update_density rnd log_step ^^ Suc n) rho) \<noteq> None"
        using h by blast
      then show "star_of integrate G eos_p eos_rho
          ((update_density rnd log_step ^^ n) (update_density rnd log_step rho)) \<noteq> None"
        by (simp add: funpow_swap1)
    qed
    have call: "sample_loop' rnd integrate G eos_p eos_rho log_step stop flag
        (update_density rnd log_step rho) (loc_set MR_data rho (m_last * m_in_M_sun G, R))
        = Some res"
      using 1(2) lt ep sv lr lm h by (simp add: Let_def)
    show False
      using 1(1) [OF call] h nx by (simp add: never_returns_def)
  qed
qed

lemma sample_loop_stuck:
  assumes "\<forall>n. (update_density rnd log_step ^^ n) rho < stop"
    and "\<forall>n. star_of integrate G eos_p eos_rho ((update_density rnd log_step ^^ n) rho) \<noteq> None"
  shows "sample_loop rnd integrate G eos_p eos_rho log_step stop False rho MR_data = None"
proof (rule ccontr)
  assume "sample_loop rnd integrate G eos_p eos_rho log_step stop False rho MR_data \<noteq> None"
  then obtain res where
    "sample_loop rnd integrate G eos_p eos_rho log_step stop False rho MR_data = Some res" by auto
  from sample_loop_never_returns [OF this] assms show False
    by (simp add: never_returns_def)
qed

lemma negative_stays:
  assumes "\<forall>x. x < 0 \<longrightarrow> update_density rnd log_step x < 0" and "start < 0"
  shows "(update_density rnd log_step ^^ n) start < 0"
  using assms by (induction n) simp_all

lemma stalled_iterates:
  assumes "update_density rnd log_step rho = rho"
  shows "(update_density rnd log_step ^^ n) rho = rho"
  using assms by (induction n) simp_all

lemma half_ulp_step_stalls: "update_density double_round (1 / 2 ^ 53) 1 = 1"
  by (simp only: update_density_def mult_1 double_round_half_ulp double_round_above_one)

lemma double_sweep_leaves:
  assumes "0 < start" and "1 / 2 ^ 52 \<le> log_step"
  shows "\<exists>n. \<not> (update_density double_round log_step ^^ n) start < stop"
proof -
  define c :: real where "c = 1 - 1 / 2 ^ 53"
  have c: "0 < c" and cc: "1 / 2 < c * c" by (simp_all add: c_def)
  have "(1 / 2 ^ 52) * (c * c) \<le> log_step * (c * c)"
    using assms(2) c by (intro mult_right_mono) simp_all
  moreover have "1 / 2 ^ 53 < (1 / 2 ^ 52) * (c * c)" using cc by simp
  moreover have "(1 + log_step * c) * c = c + log_step * (c * c)" by (simp add: algebra_simps)
  ultimately have q: "1 < (1 + log_step * (1 - 1 / 2 ^ 53)) * (1 - 1 / 2 ^ 53)"
    unfolding c_def by linarith
  have s: "0 < log_step" using assms(2) by (rule less_le_trans [rotated]) simp
  have err: "\<forall>x. \<bar>double_round x - x\<bar> \<le> (1 / 2 ^ 53) * \<bar>x\<bar>"
    by (intro allI double_round_error)
  show ?thesis
    by (rule condition_becomes_false [where u = "1 / 2 ^ 53", OF err _ _ s q assms(1)]) simp_all
qed




end
